theory Spec2Isabelle
  imports Complex_Main
begin

section \<open>Python values and exceptions\<close>

text \<open>
  The Python sources compute with unbounded integers (pixel intensities, coordinates,
  densities) and with floats (centroids, normalised coordinates, timestamps).  Integers
  are modelled by \<^typ>\<open>int\<close>.  A float is modelled by the rational number it denotes, and
  every float operation of the clustering and of the normalised lookup is the exact
  operation followed by rounding to the nearest double, ties to the even mantissa
  (\<open>round_double\<close> below).  The exponent is not bounded: overflow, subnormal numbers,
  infinities and not-a-number are left out.  Clock readings of the transport session are
  compared exactly.  An exception raised by the code is the left summand of a result.
\<close>

datatype py_exn =
    ValueError
  | ZeroDivisionError
  | IndexError
  | KeyError
  | TypeError
  | SerialException
  | ImageError

subsection \<open>Doubles\<close>

text \<open>
  Rounding to an integer, half to even; the binary exponent of a positive rational,
  found by halving or doubling; and rounding to 53 significant bits.
\<close>

definition round_even :: "rat \<Rightarrow> int" where
  "round_even x =
     (let f = \<lfloor>x\<rfloor>; d = x - of_int f
      in if d < 1 / 2 then f else if 1 / 2 < d then f + 1 else if even f then f else f + 1)"

function exp_up :: "rat \<Rightarrow> int" where
  "exp_up x = (if x < 2 then 0 else 1 + exp_up (x / 2))"
  by pat_completeness auto
termination
proof (relation "measure (\<lambda>x. nat \<lfloor>x\<rfloor>)")
  show "wf (measure (\<lambda>x::rat. nat \<lfloor>x\<rfloor>))" by simp
next
  fix x :: rat assume "\<not> x < 2"
  then have x: "2 \<le> x" by simp
  have "x / 2 \<le> x - 1" using x by simp
  then have "\<lfloor>x / 2\<rfloor> \<le> \<lfloor>x - 1\<rfloor>" by (rule floor_mono)
  then have "\<lfloor>x / 2\<rfloor> < \<lfloor>x\<rfloor>" by simp
  moreover have "0 < \<lfloor>x\<rfloor>" using x by simp
  ultimately show "(x / 2, x) \<in> measure (\<lambda>x. nat \<lfloor>x\<rfloor>)" by simp
qed

function exp_down :: "rat \<Rightarrow> int" where
  "exp_down x = (if x \<le> 0 \<or> 1 \<le> x then 0 else exp_down (2 * x) - 1)"
  by pat_completeness auto
termination
proof (relation "measure (\<lambda>x. nat \<lceil>1 / x\<rceil>)")
  show "wf (measure (\<lambda>x::rat. nat \<lceil>1 / x\<rceil>))" by simp
next
  fix x :: rat assume "\<not> (x \<le> 0 \<or> 1 \<le> x)"
  then have x: "0 < x" "x < 1" by simp_all
  let ?y = "1 / x"
  have y: "1 < ?y" using x by simp
  then have c: "2 \<le> \<lceil>?y\<rceil>" by (simp add: less_ceiling_iff)
  have "?y / 2 \<le> of_int \<lceil>?y\<rceil> / 2" by (simp add: le_of_int_ceiling)
  also have "\<dots> \<le> of_int (\<lceil>?y\<rceil> - 1)" using c by simp
  finally have "?y / 2 \<le> of_int (\<lceil>?y\<rceil> - 1)" .
  then have a: "\<lceil>?y / 2\<rceil> \<le> \<lceil>?y\<rceil> - 1" by (rule ceiling_le)
  have b: "1 / (2 * x) = ?y / 2" by simp
  have lt: "\<lceil>1 / (2 * x)\<rceil> < \<lceil>?y\<rceil>" unfolding b using a by linarith
  have pos: "0 < \<lceil>?y\<rceil>" using c by linarith
  show "(2 * x, x) \<in> measure (\<lambda>x. nat \<lceil>1 / x\<rceil>)"
    unfolding in_measure zless_nat_conj using lt pos by blast
qed

declare exp_up.simps [simp del] exp_down.simps [simp del]

definition expo :: "rat \<Rightarrow> int" where
  "expo x = (if 1 \<le> x then exp_up x else exp_down x)"

definition ulp_of :: "rat \<Rightarrow> rat" where
  "ulp_of x = 2 powi (expo \<bar>x\<bar> - 52)"

definition round_double :: "rat \<Rightarrow> rat" where
  "round_double x = (if x = 0 then 0 else of_int (round_even (x / ulp_of x)) * ulp_of x)"

text \<open>
  \<^verbatim>\<open>float(i)\<close>, which Python applies to an integer operand of a float operation, and the
  float operations \<^verbatim>\<open>+\<close>, \<^verbatim>\<open>-\<close> and \<^verbatim>\<open>*\<close>.
\<close>

definition py_float :: "int \<Rightarrow> rat" where
  "py_float i = round_double (of_int i)"

definition fadd :: "rat \<Rightarrow> rat \<Rightarrow> rat" where
  "fadd x y = round_double (x + y)"

definition fsub :: "rat \<Rightarrow> rat \<Rightarrow> rat" where
  "fsub x y = round_double (x - y)"

definition fmul :: "rat \<Rightarrow> rat \<Rightarrow> rat" where
  "fmul x y = round_double (x * y)"

subsection \<open>Built-in functions\<close>

text \<open>\<^verbatim>\<open>min(xs)\<close> and \<^verbatim>\<open>max(xs)\<close>: \<^verbatim>\<open>ValueError\<close> on an empty sequence.\<close>

fun py_min :: "('a::linorder) list \<Rightarrow> py_exn + 'a" where
  "py_min [] = Inl ValueError"
| "py_min (x # xs) = Inr (fold min xs x)"

fun py_max :: "('a::linorder) list \<Rightarrow> py_exn + 'a" where
  "py_max [] = Inl ValueError"
| "py_max (x # xs) = Inr (fold max xs x)"

text \<open>\<^verbatim>\<open>xs.index(v)\<close>: position of the first occurrence, \<^verbatim>\<open>ValueError\<close> if there is none.\<close>

fun py_index :: "'a list \<Rightarrow> 'a \<Rightarrow> py_exn + nat" where
  "py_index [] v = Inl ValueError"
| "py_index (x # xs) v =
     (if x = v then Inr 0
      else (case py_index xs v of Inl e \<Rightarrow> Inl e | Inr i \<Rightarrow> Inr (Suc i)))"

text \<open>
  List subscription \<^verbatim>\<open>xs[i]\<close>: an index from \<open>- len\<close> up to \<open>-1\<close> addresses the list
  from its end, and any index outside \<open>- len .. len - 1\<close> raises \<^verbatim>\<open>IndexError\<close>.
\<close>

definition py_get :: "'a list \<Rightarrow> int \<Rightarrow> py_exn + 'a" where
  "py_get xs i =
     (if 0 \<le> i \<and> i < int (length xs) then Inr (xs ! nat i)
      else if - int (length xs) \<le> i \<and> i < 0 then Inr (xs ! nat (int (length xs) + i))
      else Inl IndexError)"

text \<open>
  \<^verbatim>\<open>a / b\<close> on two integers: true division, the quotient rounded to the nearest double,
  \<^verbatim>\<open>ZeroDivisionError\<close> when \<^verbatim>\<open>b == 0\<close>.
\<close>

definition py_truediv :: "int \<Rightarrow> int \<Rightarrow> py_exn + rat" where
  "py_truediv a b =
     (if b = 0 then Inl ZeroDivisionError else Inr (round_double (of_int a / of_int b)))"

text \<open>\<^verbatim>\<open>int(r)\<close> on a float: truncation toward zero.\<close>

definition py_int :: "rat \<Rightarrow> int" where
  "py_int r = (if 0 \<le> r then \<lfloor>r\<rfloor> else \<lceil>r\<rceil>)"

text \<open>A loop body or comprehension that may raise: the first exception ends the loop.\<close>

fun map_exn :: "('a \<Rightarrow> py_exn + 'b) \<Rightarrow> 'a list \<Rightarrow> py_exn + 'b list" where
  "map_exn f [] = Inr []"
| "map_exn f (x # xs) =
     (case f x of
        Inl e \<Rightarrow> Inl e
      | Inr y \<Rightarrow> (case map_exn f xs of Inl e \<Rightarrow> Inl e | Inr ys \<Rightarrow> Inr (y # ys)))"


section \<open>SimpleKMeans (app\_lab\_version/main.py)\<close>

record SimpleKMeans =
  n_clusters :: int
  max_iters :: int
  centroids :: "rat list option"

definition SimpleKMeans_init :: "int \<Rightarrow> int \<Rightarrow> SimpleKMeans" where
  "SimpleKMeans_init n m = \<lparr>n_clusters = n, max_iters = m, centroids = None\<rparr>"

text \<open>
  \<^verbatim>\<open>abs(val - c)\<close> for an integer \<^verbatim>\<open>val\<close> and a float \<^verbatim>\<open>c\<close>, and
  \<^verbatim>\<open>distances = [abs(val - c) for c in centroids]; distances.index(min(distances))\<close>,
  shared by the assignment loop of \<^verbatim>\<open>fit\<close> and by \<^verbatim>\<open>predict\<close>.
\<close>

definition distance :: "int \<Rightarrow> rat \<Rightarrow> rat" where
  "distance val c = \<bar>fsub (py_float val) c\<bar>"

definition nearest :: "rat list \<Rightarrow> int \<Rightarrow> py_exn + nat" where
  "nearest cs val =
     (let distances = map (distance val) cs
      in case py_min distances of
           Inl e \<Rightarrow> Inl e
         | Inr m \<Rightarrow> py_index distances m)"

text \<open>The inner loop \<^verbatim>\<open>for val in data: ... clusters[cluster_idx].append(val)\<close>.\<close>

fun assign_points :: "rat list \<Rightarrow> int list \<Rightarrow> int list list \<Rightarrow> py_exn + int list list" where
  "assign_points cs [] clusters = Inr clusters"
| "assign_points cs (val # data) clusters =
     (case nearest cs val of
        Inl e \<Rightarrow> Inl e
      | Inr idx \<Rightarrow>
          if idx < length clusters
          then assign_points cs data (clusters[idx := clusters ! idx @ [val]])
          else Inl IndexError)"

text \<open>The loop \<^verbatim>\<open>for i, cluster in enumerate(clusters)\<close> that builds \<^verbatim>\<open>new_centroids\<close>.\<close>

definition new_centroid :: "rat list \<Rightarrow> nat \<times> int list \<Rightarrow> py_exn + rat" where
  "new_centroid cs ic =
     (case ic of (i, cluster) \<Rightarrow>
        if length cluster > 0
        then py_truediv (sum_list cluster) (int (length cluster))
        else py_get cs (int i))"

definition update_centroids :: "rat list \<Rightarrow> int list list \<Rightarrow> py_exn + rat list" where
  "update_centroids cs clusters = map_exn (new_centroid cs) (enumerate 0 clusters)"

text \<open>One pass of the body of \<^verbatim>\<open>for _ in range(self.max_iters)\<close>.\<close>

definition kmeans_round :: "nat \<Rightarrow> int list \<Rightarrow> rat list \<Rightarrow> py_exn + rat list" where
  "kmeans_round k data cs =
     (case assign_points cs data (replicate k []) of
        Inl e \<Rightarrow> Inl e
      | Inr clusters \<Rightarrow> update_centroids cs clusters)"

fun kmeans_rounds :: "nat \<Rightarrow> nat \<Rightarrow> int list \<Rightarrow> rat list \<Rightarrow> py_exn + rat list" where
  "kmeans_rounds 0 k data cs = Inr cs"
| "kmeans_rounds (Suc r) k data cs =
     (case kmeans_round k data cs of
        Inl e \<Rightarrow> Inl e
      | Inr cs' \<Rightarrow> kmeans_rounds r k data cs')"

text \<open>
  \<^verbatim>\<open>[min_val + i * step for i in range(self.n_clusters)]\<close>; \<^verbatim>\<open>range\<close> of a non-positive
  number is empty.
\<close>

definition init_centroids :: "int \<Rightarrow> int \<Rightarrow> rat \<Rightarrow> rat list" where
  "init_centroids n min_val step =
     map (\<lambda>i. fadd (py_float min_val) (fmul (py_float (int i)) step)) [0..<nat n]"

definition fit :: "SimpleKMeans \<Rightarrow> int list \<Rightarrow> py_exn + SimpleKMeans" where
  "fit km data =
     (case py_min data of Inl e \<Rightarrow> Inl e | Inr min_val \<Rightarrow>
     (case py_max data of Inl e \<Rightarrow> Inl e | Inr max_val \<Rightarrow>
     (case py_truediv (max_val - min_val) (n_clusters km - 1) of Inl e \<Rightarrow> Inl e | Inr step \<Rightarrow>
     (case kmeans_rounds (nat (max_iters km)) (nat (n_clusters km)) data
             (init_centroids (n_clusters km) min_val step) of
        Inl e \<Rightarrow> Inl e
      | Inr cs \<Rightarrow> Inr (km\<lparr>centroids := Some (sort cs)\<rparr>)))))"

definition predict :: "SimpleKMeans \<Rightarrow> int \<Rightarrow> py_exn + nat" where
  "predict km v =
     (case centroids km of
        None \<Rightarrow> Inl TypeError
      | Some cs \<Rightarrow> nearest cs v)"


section \<open>TissueAnalyzer (app\_lab\_version/main.py)\<close>

text \<open>
  The image handed to the clustering is the result of PIL's decode, grayscale conversion
  and resize, all outside the repository: it is a parameter here, either the exception
  those calls raised or the resized image with its size and its pixel list
  (\<^verbatim>\<open>list(img_resized.getdata())\<close>).  The source resizes to 200 by 200; the model keeps
  the size a field of the image.
\<close>

record gray_image =
  img_width :: int
  img_height :: int
  img_data :: "int list"

record TissueAnalyzer =
  haptic_map :: "int list list option"
  image_width :: int
  image_height :: int
  trained :: bool
  kmeans :: "SimpleKMeans option"

definition TissueAnalyzer_init :: TissueAnalyzer where
  "TissueAnalyzer_init =
     \<lparr>haptic_map = None, image_width = 0, image_height = 0, trained = False, kmeans = None\<rparr>"

text \<open>\<^verbatim>\<open>range(n)\<close> and a dictionary lookup \<^verbatim>\<open>d[k]\<close> (\<^verbatim>\<open>KeyError\<close> on a missing key).\<close>

definition py_range :: "int \<Rightarrow> int list" where
  "py_range n = map int [0..<nat n]"

definition py_lookup :: "('k \<rightharpoonup> 'v) \<Rightarrow> 'k \<Rightarrow> py_exn + 'v" where
  "py_lookup d k = (case d k of None \<Rightarrow> Inl KeyError | Some v \<Rightarrow> Inr v)"

definition cluster_to_density :: "nat \<rightharpoonup> int" where
  "cluster_to_density = [0 \<mapsto> 0, 1 \<mapsto> 128, 2 \<mapsto> 255]"

text \<open>The body of the inner loop of \<^verbatim>\<open>load_and_train\<close> that fills one cell of a row.\<close>

definition haptic_cell :: "SimpleKMeans \<Rightarrow> int list \<Rightarrow> int \<Rightarrow> int \<Rightarrow> int \<Rightarrow> py_exn + int" where
  "haptic_cell km pixels w y x =
     (case py_get pixels (y * w + x) of
        Inl e \<Rightarrow> Inl e
      | Inr pixel_val \<Rightarrow>
          (case predict km pixel_val of
             Inl e \<Rightarrow> Inl e
           | Inr cluster \<Rightarrow> py_lookup cluster_to_density cluster))"

definition build_haptic_map :: "SimpleKMeans \<Rightarrow> int list \<Rightarrow> int \<Rightarrow> int \<Rightarrow> py_exn + int list list" where
  "build_haptic_map km pixels w h =
     map_exn (\<lambda>y. map_exn (haptic_cell km pixels w y) (py_range w)) (py_range h)"

text \<open>
  \<^verbatim>\<open>load_and_train\<close>.  A left result is the exception caught by the method's
  \<^verbatim>\<open>except Exception\<close>, after which it returns the string \<^verbatim>\<open>"error: ..."\<close>; a right
  result is the analyzer after the return of \<^verbatim>\<open>"success"\<close>.  The fields a failed call
  leaves half-assigned are not modelled.
\<close>

definition load_and_train :: "TissueAnalyzer \<Rightarrow> py_exn + gray_image \<Rightarrow> py_exn + TissueAnalyzer" where
  "load_and_train a decoded =
     (case decoded of
        Inl e \<Rightarrow> Inl e
      | Inr img_resized \<Rightarrow>
          (case fit (SimpleKMeans_init 3 10) (img_data img_resized) of
             Inl e \<Rightarrow> Inl e
           | Inr km \<Rightarrow>
               (case build_haptic_map km (img_data img_resized)
                       (img_width img_resized) (img_height img_resized) of
                  Inl e \<Rightarrow> Inl e
                | Inr rows \<Rightarrow>
                    Inr (a\<lparr>haptic_map := Some rows,
                           image_width := img_width img_resized,
                           image_height := img_height img_resized,
                           trained := True,
                           kmeans := Some km\<rparr>))))"

definition get_density_at :: "TissueAnalyzer \<Rightarrow> int \<Rightarrow> int \<Rightarrow> py_exn + int" where
  "get_density_at a x y =
     (if \<not> trained a then Inr 0
      else (case haptic_map a of
              None \<Rightarrow> Inr 0
            | Some rows \<Rightarrow>
                (let x' = max 0 (min x (image_width a - 1));
                     y' = max 0 (min y (image_height a - 1))
                 in case py_get rows y' of
                      Inl e \<Rightarrow> Inl e
                    | Inr row \<Rightarrow> py_get row x')))"

definition get_density_normalized :: "TissueAnalyzer \<Rightarrow> rat \<Rightarrow> rat \<Rightarrow> py_exn + int" where
  "get_density_normalized a x_norm y_norm =
     (if \<not> trained a then Inr 0
      else (let x = py_int (fmul x_norm (py_float (image_width a)));
                y = py_int (fmul y_norm (py_float (image_height a)))
            in get_density_at a x y))"

text \<open>The clamp of the specification, written from its words, to compare with the code.\<close>

definition clamp_coord :: "int \<Rightarrow> int \<Rightarrow> int" where
  "clamp_coord n x = (if x < 0 then 0 else if n - 1 < x then n - 1 else x)"


section \<open>MCUCommunicator (linux\_brain/haptic\_scanner.py)\<close>

text \<open>
  The serial port is pyserial's, outside the repository.  Its state here is whether it is
  open and the list of messages written to the wire so far.  Whether one write fails is
  decided by the environment and is an argument of the call; a write on a closed port
  raises, and closing a closed port does nothing.
\<close>

record serial_port =
  is_open :: bool
  written :: "string list"

definition serial_write :: "bool \<Rightarrow> serial_port \<Rightarrow> string \<Rightarrow> py_exn + serial_port" where
  "serial_write fails p msg =
     (if fails then Inl SerialException
      else if is_open p then Inr (p\<lparr>written := written p @ [msg]\<rparr>)
      else Inl SerialException)"

definition serial_close :: "serial_port \<Rightarrow> serial_port" where
  "serial_close p = p\<lparr>is_open := False\<rparr>"

text \<open>\<^verbatim>\<open>str(n)\<close> of an integer, as the f-strings of the wire frames use it.\<close>

definition digit_char :: "nat \<Rightarrow> char" where
  "digit_char d = ''0123456789'' ! d"

function str_nat :: "nat \<Rightarrow> string" where
  "str_nat n = (if n < 10 then [digit_char n] else str_nat (n div 10) @ [digit_char (n mod 10)])"
  by pat_completeness auto
termination
  by (relation "measure id") auto

declare str_nat.simps [simp del]

definition str_int :: "int \<Rightarrow> string" where
  "str_int i = (if i < 0 then CHR ''-'' # str_nat (nat (- i)) else str_nat (nat i))"

definition density_frame :: "int \<Rightarrow> string" where
  "density_frame density = ''D:'' @ str_int density @ [CHR 0x0A]"

definition mode_frame :: "string \<Rightarrow> string" where
  "mode_frame mode = ''M:'' @ mode @ [CHR 0x0A]"

record MCUCommunicator =
  serial :: "serial_port option"
  demo_mode :: bool
  last_send_time :: rat
  send_interval :: rat

definition MCUCommunicator_init :: MCUCommunicator where
  "MCUCommunicator_init =
     \<lparr>serial = None, demo_mode = False, last_send_time = 0, send_interval = 1 / 100\<rparr>"

text \<open>
  \<^verbatim>\<open>connect\<close>: what the environment does is the argument.  The handshake loop only reads
  and prints; it returns \<^verbatim>\<open>True\<close> with or without the ready token, and an exception
  inside it lands in the same handler as a failed open, with the port already assigned.
\<close>

datatype connect_env = OpenFails | Opened | HandshakeRaises

definition connect :: "MCUCommunicator \<Rightarrow> connect_env \<Rightarrow> MCUCommunicator \<times> bool" where
  "connect m env =
     (case env of
        OpenFails \<Rightarrow> (m\<lparr>demo_mode := True\<rparr>, False)
      | Opened \<Rightarrow> (m\<lparr>serial := Some \<lparr>is_open = True, written = []\<rparr>\<rparr>, True)
      | HandshakeRaises \<Rightarrow>
          (m\<lparr>serial := Some \<lparr>is_open = True, written = []\<rparr>, demo_mode := True\<rparr>, False))"

text \<open>
  \<^verbatim>\<open>send_density\<close>, with the clock reading \<^verbatim>\<open>time.time()\<close> and the fate of the write as
  arguments.  The \<^verbatim>\<open>except Exception\<close> branch prints and falls through.
\<close>

definition send_density :: "MCUCommunicator \<Rightarrow> rat \<Rightarrow> bool \<Rightarrow> int \<Rightarrow> py_exn + MCUCommunicator" where
  "send_density m current_time fails density =
     (if current_time - last_send_time m < send_interval m then Inr m
      else (case serial m of
              None \<Rightarrow> Inr m
            | Some p \<Rightarrow>
                if demo_mode m then Inr m
                else (case serial_write fails p (density_frame density) of
                        Inl e \<Rightarrow> Inr m
                      | Inr p' \<Rightarrow> Inr (m\<lparr>serial := Some p', last_send_time := current_time\<rparr>))))"

definition set_mode :: "MCUCommunicator \<Rightarrow> bool \<Rightarrow> string \<Rightarrow> py_exn + MCUCommunicator" where
  "set_mode m fails mode =
     (case serial m of
        None \<Rightarrow> Inr m
      | Some p \<Rightarrow>
          if demo_mode m then Inr m
          else (case serial_write fails p (mode_frame mode) of
                  Inl e \<Rightarrow> Inr m
                | Inr p' \<Rightarrow> Inr (m\<lparr>serial := Some p'\<rparr>)))"

definition disconnect :: "MCUCommunicator \<Rightarrow> MCUCommunicator" where
  "disconnect m =
     (case serial m of
        None \<Rightarrow> m
      | Some p \<Rightarrow> m\<lparr>serial := Some (serial_close p)\<rparr>)"

text \<open>A run of \<^verbatim>\<open>send_density\<close> calls, each with its clock reading, write fate and value.\<close>

fun send_density_calls :: "MCUCommunicator \<Rightarrow> (rat \<times> bool \<times> int) list \<Rightarrow> py_exn + MCUCommunicator" where
  "send_density_calls m [] = Inr m"
| "send_density_calls m ((t, fails, density) # calls) =
     (case send_density m t fails density of
        Inl e \<Rightarrow> Inl e
      | Inr m' \<Rightarrow> send_density_calls m' calls)"

definition frames_written :: "MCUCommunicator \<Rightarrow> string list" where
  "frames_written m = (case serial m of None \<Rightarrow> [] | Some p \<Rightarrow> written p)"


section \<open>TissueSegmenter and HapticHistologyScanner (linux\_brain/haptic\_scanner.py)\<close>

text \<open>A two-dimensional numpy array: its shape \<^verbatim>\<open>(h, w)\<close> and its rows.\<close>

record ndarray2 =
  nd_shape :: "int \<times> int"
  nd_rows :: "int list list"

definition get_haptic_value :: "ndarray2 option \<Rightarrow> int \<Rightarrow> int \<Rightarrow> py_exn + int" where
  "get_haptic_value hm x y =
     (case hm of
        None \<Rightarrow> Inr 0
      | Some arr \<Rightarrow>
          (case nd_shape arr of (h, w) \<Rightarrow>
             if 0 \<le> y \<and> y < h \<and> 0 \<le> x \<and> x < w
             then (case py_get (nd_rows arr) y of
                     Inl e \<Rightarrow> Inl e
                   | Inr row \<Rightarrow> py_get row x)
             else Inr 0))"

text \<open>
  \<^verbatim>\<open>TissueSegmenter.train\<close> clusters with scikit-learn, outside the repository; what it
  does with the result is modelled.  The cluster centres and the per-pixel labels are
  parameters.  \<^verbatim>\<open>np.argsort\<close> lists the indices of the centres by ascending centre;
  \<^verbatim>\<open>haptic_values\<close> is the dictionary literal built from its first three entries, a
  later entry overwriting an earlier one with the same key.
\<close>

definition argsort :: "rat list \<Rightarrow> nat list" where
  "argsort cs = map snd (sort_key fst (zip cs [0..<length cs]))"

definition haptic_values :: "nat list \<Rightarrow> py_exn + (nat \<rightharpoonup> int)" where
  "haptic_values sorted_indices =
     (case py_get sorted_indices 0 of Inl e \<Rightarrow> Inl e | Inr i0 \<Rightarrow>
     (case py_get sorted_indices 1 of Inl e \<Rightarrow> Inl e | Inr i1 \<Rightarrow>
     (case py_get sorted_indices 2 of Inl e \<Rightarrow> Inl e | Inr i2 \<Rightarrow>
        Inr [i0 \<mapsto> 0, i1 \<mapsto> 80, i2 \<mapsto> 255])))"

definition haptic_map_flat :: "rat list \<Rightarrow> nat list \<Rightarrow> py_exn + int list" where
  "haptic_map_flat centers labels =
     (case haptic_values (argsort centers) of
        Inl e \<Rightarrow> Inl e
      | Inr hv \<Rightarrow> map_exn (py_lookup hv) labels)"


record HapticHistologyScanner =
  haptic_mode :: string
  edge_detection_threshold :: int
  mcu :: MCUCommunicator
  segmenter_haptic_map :: "ndarray2 option"
  mri_image_shape :: "int \<times> int"
  current_density :: int
  prev_density :: int

text \<open>
  \<^verbatim>\<open>process_haptic_feedback\<close>.  The \<^verbatim>\<open>EDGE_DETECT\<close> branch computes a gradient and
  does nothing with it (\<^verbatim>\<open>pass\<close>), so it leaves no trace in the result.
\<close>

definition process_haptic_feedback ::
  "HapticHistologyScanner \<Rightarrow> int \<Rightarrow> int \<Rightarrow> rat \<Rightarrow> bool \<Rightarrow> py_exn + HapticHistologyScanner" where
  "process_haptic_feedback s mouse_x mouse_y current_time fails =
     (case mri_image_shape s of (h, w) \<Rightarrow>
        if \<not> (0 \<le> mouse_x \<and> mouse_x < w \<and> 0 \<le> mouse_y \<and> mouse_y < h) then Inr s
        else (case get_haptic_value (segmenter_haptic_map s) mouse_x mouse_y of
                Inl e \<Rightarrow> Inl e
              | Inr d \<Rightarrow>
                  (let s1 = s\<lparr>prev_density := current_density s, current_density := d\<rparr>
                   in case send_density (mcu s1) current_time fails (current_density s1) of
                        Inl e \<Rightarrow> Inl e
                      | Inr m' \<Rightarrow> Inr (s1\<lparr>mcu := m'\<rparr>))))"

definition shutdown :: "HapticHistologyScanner \<Rightarrow> HapticHistologyScanner" where
  "shutdown s = s\<lparr>mcu := disconnect (mcu s)\<rparr>"


section \<open>Notions used in the statements\<close>

text \<open>
  The exact arithmetic mean of a list of intensities, a list of centroids within bounds,
  and an integer that a double holds exactly.
\<close>

definition mean :: "int list \<Rightarrow> rat" where
  "mean xs = of_int (sum_list xs) / of_int (int (length xs))"



text \<open>
  A trained analyzer whose map has the shape the analyzer records: what \<^verbatim>\<open>load_and_train\<close>
  leaves behind on an image of positive size.
\<close>

definition trained_map_ok :: "TissueAnalyzer \<Rightarrow> bool" where
  "trained_map_ok a =
     (trained a \<and>
      (case haptic_map a of
         None \<Rightarrow> False
       | Some rows \<Rightarrow>
           1 \<le> image_width a \<and> 1 \<le> image_height a \<and>
           int (length rows) = image_height a \<and>
           list_all (\<lambda>row. int (length row) = image_width a) rows))"

text \<open>The values of \<^verbatim>\<open>cluster_to_density\<close>, listed by cluster index.\<close>

definition density_table :: "int list" where
  "density_table = [0, 128, 255]"

text \<open>Concrete states on which the theorems are exercised.\<close>

definition analyzer2 :: TissueAnalyzer where
  "analyzer2 = \<lparr>haptic_map = Some [[0, 128], [255, 0]], image_width = 2, image_height = 2,
                trained = True, kmeans = None\<rparr>"

definition connected_mcu :: MCUCommunicator where
  "connected_mcu = fst (connect MCUCommunicator_init Opened)"

definition burst_calls :: "(rat \<times> bool \<times> int) list" where
  "burst_calls = [(1, False, 10), (1001 / 1000, False, 20), (101 / 100, False, 30)]"

definition sent_200 :: MCUCommunicator where
  "sent_200 = connected_mcu\<lparr>serial := Some \<lparr>is_open = True, written = [''D:200'' @ [CHR 0x0A]]\<rparr>,
                             last_send_time := 1\<rparr>"

definition scanner1 :: HapticHistologyScanner where
  "scanner1 =
     \<lparr>haptic_mode = ''TEXTURE'', edge_detection_threshold = 50,
      mcu = \<lparr>serial = Some \<lparr>is_open = True, written = []\<rparr>, demo_mode = False,
             last_send_time = 0, send_interval = 1 / 100\<rparr>,
      segmenter_haptic_map = Some \<lparr>nd_shape = (2, 2), nd_rows = [[0, 80], [255, 80]]\<rparr>,
      mri_image_shape = (2, 2), current_density = 80, prev_density = 255\<rparr>"


definition analyzer_wide :: TissueAnalyzer where
  "analyzer_wide =
     \<lparr>haptic_map = Some [map int [0..<200]], image_width = 200, image_height = 1,
      trained = True, kmeans = None\<rparr>"


section \<open>Rounding to a double: order and exact values\<close>

lemma exp_up_bounds:
  "1 \<le> x \<Longrightarrow> 2 powi (exp_up x) \<le> x \<and> x < 2 powi (exp_up x + 1)"
proof (induction x rule: exp_up.induct)
  case (1 x)
  show ?case
  proof (cases "x < 2")
    case True
    then show ?thesis using "1.prems" by (simp add: exp_up.simps)
  next
    case False
    then have "1 \<le> x / 2" by simp
    from "1.IH"[OF False this] have ih: "2 powi (exp_up (x / 2)) \<le> x / 2" "x / 2 < 2 powi (exp_up (x / 2) + 1)"
      by simp_all
    have e: "exp_up x = 1 + exp_up (x / 2)" using False by (simp add: exp_up.simps)
    have "2 powi (1 + exp_up (x / 2)) = 2 * (2::rat) powi (exp_up (x / 2))"
      by (simp add: power_int_add)
    moreover have "2 powi (1 + exp_up (x / 2) + 1) = 2 * (2::rat) powi (exp_up (x / 2) + 1)"
      by (simp add: power_int_add)
    ultimately show ?thesis using ih unfolding e by simp
  qed
qed

lemma exp_down_bounds:
  "0 < x \<Longrightarrow> x < 1 \<Longrightarrow> 2 powi (exp_down x) \<le> x \<and> x < 2 powi (exp_down x + 1)"
proof (induction x rule: exp_down.induct)
  case (1 x)
  have e: "exp_down x = exp_down (2 * x) - 1" using "1.prems" by (simp add: exp_down.simps)
  have nz: "\<not> (x \<le> 0 \<or> 1 \<le> x)" using "1.prems" by simp
  show ?case
  proof (cases "2 * x < 1")
    case True
    have "0 < 2 * x" using "1.prems" by simp
    from "1.IH"[OF nz this True]
    have ih: "2 powi (exp_down (2 * x)) \<le> 2 * x" "2 * x < 2 powi (exp_down (2 * x) + 1)" by simp_all
    have "(2::rat) powi (exp_down (2 * x)) = 2 * 2 powi (exp_down (2 * x) - 1)"
      by (simp add: power_int_diff)
    moreover have "(2::rat) powi (exp_down (2 * x) + 1) = 2 * 2 powi (exp_down (2 * x) - 1 + 1)"
      by (simp add: power_int_add)
    ultimately show ?thesis using ih unfolding e by simp
  next
    case False
    then have "exp_down (2 * x) = 0" by (simp add: exp_down.simps)
    then have "exp_down x = - 1" using e by simp
    then show ?thesis using False "1.prems" by (simp add: power_int_minus)
  qed
qed

lemma expo_bounds:
  "0 < x \<Longrightarrow> 2 powi (expo x) \<le> x \<and> x < 2 powi (expo x + 1)"
  using exp_up_bounds[of x] exp_down_bounds[of x] by (cases "1 \<le> x") (simp_all add: expo_def)

lemma pow2_less_imp:
  assumes "(2::rat) powi m < 2 powi n"
  shows "m < n"
proof (rule ccontr)
  assume "\<not> m < n"
  then have "n \<le> m" by simp
  then have "(2::rat) powi n \<le> 2 powi m" by (intro power_int_increasing) simp_all
  with assms show False by simp
qed

lemma expo_unique:
  assumes "2 powi k \<le> x" and "x < 2 powi (k + 1)"
  shows "expo x = k"
proof -
  have x: "0 < x" using assms(1) by (rule less_le_trans[rotated]) simp
  note b = expo_bounds[OF x]
  have "(2::rat) powi k < 2 powi (expo x + 1)" using assms(1) b by linarith
  then have 1: "k < expo x + 1" by (rule pow2_less_imp)
  have "(2::rat) powi (expo x) < 2 powi (k + 1)" using assms(2) b by linarith
  then have 2: "expo x < k + 1" by (rule pow2_less_imp)
  from 1 2 show ?thesis by simp
qed

lemma round_even_of_int: "round_even (of_int k) = k"
  by (simp add: round_even_def)

lemma round_even_cases: "round_even x = \<lfloor>x\<rfloor> \<or> round_even x = \<lfloor>x\<rfloor> + 1"
  by (simp add: round_even_def Let_def)

lemma round_even_exact_floor: "x = of_int \<lfloor>x\<rfloor> \<Longrightarrow> round_even x = \<lfloor>x\<rfloor>"
  by (metis round_even_of_int)

lemma round_even_mono:
  assumes "x \<le> y"
  shows "round_even x \<le> round_even y"
proof (cases "\<lfloor>x\<rfloor> < \<lfloor>y\<rfloor>")
  case True
  have "round_even x \<le> \<lfloor>x\<rfloor> + 1" using round_even_cases[of x] by auto
  moreover have "\<lfloor>y\<rfloor> \<le> round_even y" using round_even_cases[of y] by auto
  ultimately show ?thesis using True by linarith
next
  case False
  have "\<lfloor>x\<rfloor> \<le> \<lfloor>y\<rfloor>" using assms by (rule floor_mono)
  with False have f: "\<lfloor>y\<rfloor> = \<lfloor>x\<rfloor>" by simp
  have d: "x - of_int \<lfloor>x\<rfloor> \<le> y - of_int \<lfloor>x\<rfloor>" using assms by simp
  show ?thesis using d unfolding round_even_def Let_def f by auto
qed

lemma round_even_ge: "of_int k \<le> x \<Longrightarrow> k \<le> round_even x"
  using round_even_mono[of "of_int k" x] by (simp add: round_even_of_int)

lemma round_even_le: "x \<le> of_int k \<Longrightarrow> round_even x \<le> k"
  using round_even_mono[of x "of_int k"] by (simp add: round_even_of_int)

lemma ulp_of_pos: "0 < ulp_of x"
  by (simp add: ulp_of_def)

lemma round_double_eq: "x \<noteq> 0 \<Longrightarrow> round_double x = of_int (round_even (x / ulp_of x)) * ulp_of x"
  by (simp add: round_double_def)

lemma round_double_0: "round_double 0 = 0"
  by (simp add: round_double_def)

lemma scaled_bounds:
  assumes "x \<noteq> 0"
  shows "2 ^ 52 \<le> \<bar>x\<bar> / ulp_of x \<and> \<bar>x\<bar> / ulp_of x < 2 ^ 53"
proof -
  have a: "0 < \<bar>x\<bar>" using assms by simp
  note b = expo_bounds[OF a]
  let ?e = "expo \<bar>x\<bar>"
  have p: "(2::rat) powi ?e = 2 ^ 52 * 2 powi (?e - 52)"
    using power_int_add[of "2::rat" 52 "?e - 52"] by simp
  have q: "(2::rat) powi (?e + 1) = 2 ^ 53 * 2 powi (?e - 52)"
    using power_int_add[of "2::rat" 53 "?e - 52"] by (simp add: add.commute)
  have u: "0 < (2::rat) powi (?e - 52)" by simp
  have "2 ^ 52 \<le> \<bar>x\<bar> / 2 powi (?e - 52)"
    using b p u by (simp add: pos_le_divide_eq)
  moreover have "\<bar>x\<bar> / 2 powi (?e - 52) < 2 ^ 53"
    using b q u by (simp add: pos_divide_less_eq)
  ultimately show ?thesis by (simp add: ulp_of_def)
qed


lemma ulp_of_neg: "ulp_of (- x) = ulp_of x"
  by (simp add: ulp_of_def)









lemma round_double_exact:
  assumes x: "x = of_int m * 2 powi j" and m: "\<bar>m\<bar> < 2 ^ 53"
  shows "round_double x = x"
proof (cases "m = 0")
  case True
  then show ?thesis using x by (simp add: round_double_0)
next
  case False
  have nz: "x \<noteq> 0" using False x by simp
  let ?e = "expo \<bar>x\<bar>"
  have ax: "\<bar>x\<bar> = of_int \<bar>m\<bar> * 2 powi j" unfolding x by (simp add: abs_mult)
  have "(of_int \<bar>m\<bar> :: rat) < of_int (2 ^ 53)" using m by (simp only: of_int_less_iff)
  then have "(of_int \<bar>m\<bar> :: rat) < 2 ^ 53" by simp
  then have "\<bar>x\<bar> < 2 ^ 53 * 2 powi j" unfolding ax by (intro mult_strict_right_mono) simp_all
  also have "\<dots> = 2 powi (53 + j)" using power_int_add[of "2::rat" 53 j] by simp
  finally have up: "\<bar>x\<bar> < 2 powi (53 + j)" .
  have "0 < \<bar>x\<bar>" using nz by simp
  from expo_bounds[OF this] have "2 powi ?e \<le> \<bar>x\<bar>" by simp
  with up have "(2::rat) powi ?e < 2 powi (53 + j)" by linarith
  then have "?e < 53 + j" by (rule pow2_less_imp)
  then have k: "0 \<le> j - (?e - 52)" by simp
  define k where "k = nat (j - (?e - 52))"
  have jk: "j = int k + (?e - 52)" using k by (simp add: k_def)
  have "(2::rat) powi j = 2 ^ k * 2 powi (?e - 52)"
    unfolding jk using power_int_add[of "2::rat" "int k" "?e - 52"] by simp
  then have xs: "x = of_int (m * 2 ^ k) * ulp_of x" unfolding x[symmetric] ulp_of_def
    using x by simp
  have "x / ulp_of x = of_int (m * 2 ^ k)"
    using xs ulp_of_pos[of x] by (metis nonzero_mult_div_cancel_right less_irrefl)
  then have "round_even (x / ulp_of x) = m * 2 ^ k" by (simp only: round_even_of_int)
  then show ?thesis unfolding round_double_eq[OF nz] using xs by simp
qed

lemma round_double_of_int:
  assumes "\<bar>k\<bar> \<le> 2 ^ 53"
  shows "round_double (of_int k) = of_int k"
proof (cases "\<bar>k\<bar> < 2 ^ 53")
  case True
  have "(of_int k :: rat) = of_int k * 2 powi 0" by simp
  from round_double_exact[OF this True] show ?thesis .
next
  case False
  then have "\<bar>k\<bar> = 2 ^ 53" using assms by simp
  then have "k = 2 ^ 53 \<or> k = - (2 ^ 53)" by linarith
  then have "(of_int k :: rat) = of_int (k div 2) * 2 powi 1 \<and> \<bar>k div 2\<bar> < 2 ^ 53"
    by auto
  then show ?thesis using round_double_exact[of "of_int k" "k div 2" 1] by simp
qed

lemma round_double_idem: "round_double (round_double x) = round_double x"
proof (cases "x = 0")
  case True
  then show ?thesis by (simp add: round_double_0)
next
  case False
  define n where "n = round_even (x / ulp_of x)"
  have r: "round_double x = of_int n * 2 powi (expo \<bar>x\<bar> - 52)"
    unfolding round_double_eq[OF False] n_def ulp_of_def ..
  have s: "2 ^ 52 \<le> \<bar>x\<bar> / ulp_of x" "\<bar>x\<bar> / ulp_of x < 2 ^ 53"
    using scaled_bounds[OF False] by simp_all
  have lt: "\<bar>x / ulp_of x\<bar> < 2 ^ 53"
    unfolding abs_div_pos[OF ulp_of_pos, symmetric] by (rule s(2))
  have "x / ulp_of x \<le> 2 ^ 53" using lt by linarith
  then have "x / ulp_of x \<le> (of_int (2 ^ 53) :: rat)" by simp
  then have hi: "n \<le> 2 ^ 53" unfolding n_def by (rule round_even_le)
  have "- (2 ^ 53) \<le> x / ulp_of x" using lt by linarith
  then have "(of_int (- (2 ^ 53)) :: rat) \<le> x / ulp_of x" by simp
  then have lo: "- (2 ^ 53) \<le> n" unfolding n_def by (rule round_even_ge)
  show ?thesis
  proof (cases "\<bar>n\<bar> < 2 ^ 53")
    case True
    from round_double_exact[OF r True] show ?thesis .
  next
    case False
    then have "n = 2 ^ 53 \<or> n = - (2 ^ 53)" using hi lo by linarith
    then have d: "(of_int n :: rat) = of_int (n div 2) * 2" "\<bar>n div 2\<bar> < 2 ^ 53" by auto
    have "round_double x = of_int (n div 2) * 2 powi (expo \<bar>x\<bar> - 52 + 1)"
      unfolding r d(1) using power_int_add[of "2::rat" "expo \<bar>x\<bar> - 52" 1] by simp
    from round_double_exact[OF this d(2)] show ?thesis .
  qed
qed

lemma round_even_near:
  assumes "of_int n - 1 / 2 < x" and "x < of_int n + 1 / 2"
  shows "round_even x = n"
proof (cases "of_int n \<le> x")
  case True
  have "\<lfloor>x\<rfloor> = n" using True assms(2) by (intro floor_unique) simp_all
  then show ?thesis using assms(2) by (simp add: round_even_def Let_def)
next
  case False
  have f: "\<lfloor>x\<rfloor> = n - 1" using False assms(1) by (intro floor_unique) simp_all
  show ?thesis using assms(1) False by (simp add: round_even_def Let_def f)
qed

lemma round_double_at:
  assumes "2 powi k \<le> \<bar>x\<bar>" and "\<bar>x\<bar> < 2 powi (k + 1)"
    and "u = 2 powi (k - 52)" and "of_int n - 1 / 2 < x / u" and "x / u < of_int n + 1 / 2"
  shows "round_double x = of_int n * u"
proof -
  have e: "expo \<bar>x\<bar> = k" using assms(1,2) by (rule expo_unique)
  have "0 < \<bar>x\<bar>" using assms(1) by (rule less_le_trans[rotated]) simp
  then have nz: "x \<noteq> 0" by simp
  have "round_even (x / u) = n" using assms(4,5) by (rule round_even_near)
  then show ?thesis unfolding round_double_eq[OF nz] using assms(3) by (simp add: ulp_of_def e)
qed


section \<open>Clustering: results and bounds\<close>

lemma py_min_Inr:
  "xs \<noteq> [] \<Longrightarrow> py_min xs = Inr (Min (set xs))"
proof (cases xs)
  case (Cons a list)
  show ?thesis unfolding Cons by (simp only: py_min.simps Min.set_eq_fold)
qed simp

lemma py_max_Inr:
  "xs \<noteq> [] \<Longrightarrow> py_max xs = Inr (Max (set xs))"
proof (cases xs)
  case (Cons a list)
  show ?thesis unfolding Cons by (simp only: py_max.simps Max.set_eq_fold)
qed simp

lemma py_index_mem:
  "v \<in> set xs \<Longrightarrow> \<exists>i. py_index xs v = Inr i \<and> i < length xs \<and> xs ! i = v"
  by (induction xs) auto

lemma nearest_Inr:
  assumes "cs \<noteq> []"
  shows "\<exists>i. nearest cs v = Inr i \<and> i < length cs"
proof -
  let ?ds = "map (distance v) cs"
  have ne: "?ds \<noteq> []" using assms by simp
  have "Min (set ?ds) \<in> set ?ds" using ne by (intro Min_in) auto
  from py_index_mem[OF this] obtain i where "py_index ?ds (Min (set ?ds)) = Inr i" "i < length ?ds"
    by blast
  then show ?thesis using ne by (simp add: nearest_def py_min_Inr Let_def)
qed

lemma assign_points_Inr:
  "cs \<noteq> [] \<Longrightarrow> length clusters = length cs \<Longrightarrow>
   \<exists>cl. assign_points cs data clusters = Inr cl \<and> length cl = length clusters \<and>
        (\<forall>i<length cl. set (cl ! i) \<subseteq> set (clusters ! i) \<union> set data)"
proof (induction data arbitrary: clusters)
  case Nil
  then show ?case by simp
next
  case (Cons val data)
  from nearest_Inr[OF Cons.prems(1)] obtain idx where idx: "nearest cs val = Inr idx" "idx < length cs"
    by blast
  let ?c' = "clusters[idx := clusters ! idx @ [val]]"
  have len: "length ?c' = length cs" using Cons.prems by simp
  from Cons.IH[OF Cons.prems(1) len] obtain cl where
    cl: "assign_points cs data ?c' = Inr cl" "length cl = length ?c'"
        "\<forall>i<length cl. set (cl ! i) \<subseteq> set (?c' ! i) \<union> set data" by blast
  have "\<forall>i<length cl. set (cl ! i) \<subseteq> set (clusters ! i) \<union> set (val # data)"
  proof (intro allI impI)
    fix i assume i: "i < length cl"
    have "set (?c' ! i) \<subseteq> set (clusters ! i) \<union> {val}"
      using i cl(2) by (cases "i = idx") auto
    with cl(3) i show "set (cl ! i) \<subseteq> set (clusters ! i) \<union> set (val # data)" by fastforce
  qed
  then show ?case using idx cl Cons.prems by simp
qed

lemma map_exn_Inr:
  "(\<And>x. x \<in> set xs \<Longrightarrow> f x = Inr (g x)) \<Longrightarrow> map_exn f xs = Inr (map g xs)"
  by (induction xs) auto


lemma new_centroid_Inr:
  "i < length cs \<Longrightarrow>
   new_centroid cs (i, c) = Inr (if c = [] then cs ! i else round_double (mean c))"
  by (simp add: new_centroid_def py_truediv_def py_get_def mean_def)

lemma update_centroids_Inr:
  assumes "length clusters = length cs"
  shows "update_centroids cs clusters =
         Inr (map (\<lambda>(i, c). if c = [] then cs ! i else round_double (mean c))
                (enumerate 0 clusters))"
  unfolding update_centroids_def
proof (rule map_exn_Inr)
  fix x assume mem: "x \<in> set (enumerate 0 clusters)"
  obtain i c where x: "x = (i, c)" by (cases x)
  have i: "i < length clusters" using mem unfolding x by (simp add: in_set_enumerate_eq)
  show "new_centroid cs x = Inr ((\<lambda>(i, c). if c = [] then cs ! i else round_double (mean c)) x)"
    unfolding x using i assms by (simp add: new_centroid_Inr)
qed

lemma sum_list_bounds:
  fixes xs :: "int list"
  assumes "\<forall>x\<in>set xs. lo \<le> x \<and> x \<le> hi"
  shows "int (length xs) * lo \<le> sum_list xs \<and> sum_list xs \<le> int (length xs) * hi"
  using assms by (induction xs) (auto simp: algebra_simps)

lemma mean_bounds:
  assumes "xs \<noteq> []" "\<forall>x\<in>set xs. lo \<le> x \<and> x \<le> hi"
  shows "of_int lo \<le> mean xs \<and> mean xs \<le> of_int hi"
proof -
  have n: "(0::rat) < of_int (int (length xs))" using assms(1) by simp
  from sum_list_bounds[OF assms(2)]
  have "of_int (int (length xs) * lo) \<le> (of_int (sum_list xs) :: rat)"
       "(of_int (sum_list xs) :: rat) \<le> of_int (int (length xs) * hi)"
    by (simp_all only: of_int_le_iff)
  then show ?thesis using n unfolding mean_def
    by (simp add: pos_le_divide_eq pos_divide_le_eq mult.commute)
qed




lemma kmeans_round_step:
  assumes k: "0 < k" and len: "length cs = k"
  shows "\<exists>cs'. kmeans_round k data cs = Inr cs' \<and> length cs' = k \<and>
           (\<forall>i<k. \<exists>cl. set cl \<subseteq> set data \<and>
                     cs' ! i = (if cl = [] then cs ! i else round_double (mean cl)))"
proof -
  have ne: "cs \<noteq> []" using k len by auto
  have "length (replicate k ([]::int list)) = length cs" using len by simp
  from assign_points_Inr[OF ne this, of data] obtain cl where
    cl: "assign_points cs data (replicate k []) = Inr cl" "length cl = k"
        "\<forall>i<length cl. set (cl ! i) \<subseteq> set (replicate k ([]::int list) ! i) \<union> set data"
    by auto
  have sub: "\<And>i. i < k \<Longrightarrow> set (cl ! i) \<subseteq> set data"
    using cl(2,3) by auto
  let ?f = "\<lambda>(i, c). if c = [] then cs ! i else round_double (mean c)"
  let ?cs' = "map ?f (enumerate 0 cl)"
  have upd: "update_centroids cs cl = Inr ?cs'"
    using update_centroids_Inr[of cl cs] cl(2) len by simp
  have "\<forall>i<k. \<exists>c. set c \<subseteq> set data \<and>
                     ?cs' ! i = (if c = [] then cs ! i else round_double (mean c))"
  proof (intro allI impI)
    fix i assume i: "i < k"
    have "?cs' ! i = (if cl ! i = [] then cs ! i else round_double (mean (cl ! i)))"
      using i cl(2) by (simp add: nth_enumerate_eq)
    with sub[OF i] show "\<exists>c. set c \<subseteq> set data \<and>
                     ?cs' ! i = (if c = [] then cs ! i else round_double (mean c))" by blast
  qed
  moreover have "length ?cs' = k" using cl(2) by simp
  ultimately show ?thesis using cl(1) upd by (simp add: kmeans_round_def)
qed


lemma kmeans_rounds_total:
  assumes "0 < k"
  shows "length cs = k \<Longrightarrow> \<exists>cs'. kmeans_rounds r k data cs = Inr cs' \<and> length cs' = k"
proof (induction r arbitrary: cs)
  case 0
  then show ?case by simp
next
  case (Suc r)
  from kmeans_round_step[OF assms Suc.prems, of data] obtain cs1 where
    cs1: "kmeans_round k data cs = Inr cs1" "length cs1 = k" by blast
  from Suc.IH[OF cs1(2)] show ?case using cs1(1) by simp
qed


lemma init_centroids_length: "length (init_centroids n lo step) = nat n"
  by (simp add: init_centroids_def)

lemma fit_total:
  assumes ne: "data \<noteq> []" and n: "2 \<le> n_clusters km"
  shows "\<exists>cs. fit km data = Inr (km\<lparr>centroids := Some (sort cs)\<rparr>) \<and>
              length cs = nat (n_clusters km)"
proof -
  have k: "0 < nat (n_clusters km)" using n by simp
  obtain step where step: "py_truediv (Max (set data) - Min (set data)) (n_clusters km - 1) = Inr step"
    using n by (simp add: py_truediv_def)
  from kmeans_rounds_total[OF k init_centroids_length,
      where r = "nat (max_iters km)" and data = data]
  obtain cs where cs: "kmeans_rounds (nat (max_iters km)) (nat (n_clusters km)) data
      (init_centroids (n_clusters km) (Min (set data)) step) = Inr cs"
      "length cs = nat (n_clusters km)" by blast
  have "fit km data = Inr (km\<lparr>centroids := Some (sort cs)\<rparr>)"
    using cs(1) step ne by (simp add: fit_def py_min_Inr py_max_Inr)
  then show ?thesis using cs(2) by blast
qed








lemma nearest_uniform: "0 < k \<Longrightarrow> nearest (replicate k c) v = Inr 0"
proof -
  assume k: "0 < k"
  obtain j where j: "k = Suc j" using k by (cases k) auto
  have "fold min (replicate j (distance v c)) (distance v c) = distance v c"
    by (induction j) simp_all
  then show ?thesis by (simp add: nearest_def j)
qed

lemma assign_points_all_first:
  "(\<forall>v\<in>set data. nearest cs v = Inr 0) \<Longrightarrow> clusters \<noteq> [] \<Longrightarrow>
   assign_points cs data clusters = Inr (clusters[0 := clusters ! 0 @ data])"
proof (induction data arbitrary: clusters)
  case Nil
  then show ?case by simp
next
  case (Cons val data)
  let ?c' = "clusters[0 := clusters ! 0 @ [val]]"
  have "assign_points cs data ?c' = Inr (?c'[0 := ?c' ! 0 @ data])"
    using Cons by simp
  then show ?case using Cons.prems by simp
qed

lemma mean_uniform:
  assumes "xs \<noteq> []" "\<forall>x\<in>set xs. x = v"
  shows "mean xs = of_int v"
proof -
  have "\<forall>x\<in>set xs. v \<le> x \<and> x \<le> v" using assms(2) by simp
  from mean_bounds[OF assms(1) this] show ?thesis by simp
qed

lemma kmeans_round_uniform:
  assumes k: "0 < k" and ne: "data \<noteq> []" and u: "\<forall>x\<in>set data. x = v"
  shows "kmeans_round k data (replicate k (py_float v)) = Inr (replicate k (py_float v))"
proof -
  let ?cs = "replicate k (py_float v)"
  let ?cl = "(replicate k ([]::int list))[0 := data]"
  have a: "assign_points ?cs data (replicate k []) = Inr ?cl"
    using assign_points_all_first[of data ?cs "replicate k []"] nearest_uniform[OF k] k by simp
  let ?f = "\<lambda>(i, c). if c = [] then ?cs ! i else round_double (mean c)"
  have upd: "update_centroids ?cs ?cl = Inr (map ?f (enumerate 0 ?cl))"
    by (rule update_centroids_Inr) simp
  have m: "round_double (mean data) = py_float v"
    using mean_uniform[OF ne u] by (simp add: py_float_def)
  have "map ?f (enumerate 0 ?cl) = ?cs"
  proof (rule nth_equalityI)
    show "length (map ?f (enumerate 0 ?cl)) = length ?cs" by simp
  next
    fix i assume "i < length (map ?f (enumerate 0 ?cl))"
    then have i: "i < k" by simp
    show "map ?f (enumerate 0 ?cl) ! i = ?cs ! i"
    proof (cases "i = 0")
      case True
      then show ?thesis using i ne m by (simp add: nth_enumerate_eq)
    next
      case False
      then show ?thesis using i by (simp add: nth_enumerate_eq)
    qed
  qed
  then show ?thesis using a upd by (simp add: kmeans_round_def)
qed

lemma kmeans_rounds_uniform:
  assumes "0 < k" "data \<noteq> []" "\<forall>x\<in>set data. x = v"
  shows "kmeans_rounds r k data (replicate k (py_float v)) = Inr (replicate k (py_float v))"
  by (induction r) (simp_all add: kmeans_round_uniform[OF assms])

lemma init_centroids_zero_step: "init_centroids n lo 0 = replicate (nat n) (py_float lo)"
proof -
  have "fadd (py_float lo) (fmul (py_float (int i)) 0) = py_float lo" for i
    by (simp add: fadd_def fmul_def round_double_0 py_float_def round_double_idem)
  then show ?thesis by (simp add: init_centroids_def map_replicate_const)
qed

lemma fit_uniform:
  assumes ne: "data \<noteq> []" and u: "\<forall>x\<in>set data. x = v" and n: "2 \<le> n_clusters km"
  shows "fit km data = Inr (km\<lparr>centroids := Some (replicate (nat (n_clusters km)) (py_float v))\<rparr>)"
proof -
  have s: "set data = {v}" using ne u by (cases data) auto
  have mn: "py_min data = Inr v" using ne s by (simp add: py_min_Inr)
  have mx: "py_max data = Inr v" using ne s by (simp add: py_max_Inr)
  have st: "py_truediv 0 (n_clusters km - 1) = Inr 0"
    using n by (simp add: py_truediv_def round_double_0)
  have k: "0 < nat (n_clusters km)" using n by simp
  have srt: "sort (replicate (nat (n_clusters km)) (py_float v)) = replicate (nat (n_clusters km)) (py_float v)"
    by (simp add: sorted_sort_id)
  show ?thesis
    by (simp add: fit_def mn mx st init_centroids_zero_step kmeans_rounds_uniform[OF k ne u] srt)
qed

lemma fit_one_cluster:
  "data \<noteq> [] \<Longrightarrow> n_clusters km = 1 \<Longrightarrow> fit km data = Inl ZeroDivisionError"
  by (cases data) (simp_all add: fit_def py_truediv_def)

lemma fit_no_cluster:
  assumes d: "data \<noteq> []" and n: "n_clusters km \<le> 0" and m: "1 \<le> max_iters km"
  shows "fit km data = Inl ValueError"
proof -
  obtain x xs where x: "data = x # xs" using d by (cases data) auto
  obtain r where r: "nat (max_iters km) = Suc r" using m by (cases "nat (max_iters km)") auto
  show ?thesis using n
    by (simp add: fit_def x r py_truediv_def init_centroids_def kmeans_round_def nearest_def)
qed


section \<open>Claims about the clustering\<close>

text \<open>
  Claim C2, as stated: every cluster count below two is rejected with an
  \<^verbatim>\<open>InvalidConfiguration\<close> error and fails in no other way.  The code has no such error
  and no check of the cluster count: one cluster divides by zero when the step is
  computed, and no cluster at all makes \<^verbatim>\<open>min\<close> of the empty distance list raise
  \<^verbatim>\<open>ValueError\<close> in the first round.
\<close>

theorem C2_fit_invalid_configuration_counterexample:
  "fit (SimpleKMeans_init 1 10) [80, 90] = Inl ZeroDivisionError \<and>
   fit (SimpleKMeans_init 0 10) [80, 90] = Inl ValueError"
  by (simp add: fit_one_cluster fit_no_cluster SimpleKMeans_init_def)

text \<open>
  Claim C2, amended: on non-empty data and with at least one round configured, \<^verbatim>\<open>fit\<close>
  fails for every cluster count below two, with \<^verbatim>\<open>ZeroDivisionError\<close> when the count is
  one and with \<^verbatim>\<open>ValueError\<close> when it is zero or negative.
\<close>

theorem C2_fit_small_cluster_count:
  assumes "data \<noteq> []" and "n_clusters km < 2" and "1 \<le> max_iters km"
  shows "fit km data = Inl (if n_clusters km = 1 then ZeroDivisionError else ValueError)"
proof (cases "n_clusters km = 1")
  case True
  then show ?thesis using fit_one_cluster[OF assms(1)] by simp
next
  case False
  then have "n_clusters km \<le> 0" using assms(2) by simp
  from fit_no_cluster[OF assms(1) this assms(3)] show ?thesis using False by simp
qed

theorem C2_fit_small_cluster_count_witness:
  "[7, 7, 9] \<noteq> ([] :: int list) \<and> n_clusters (SimpleKMeans_init 1 10) < 2 \<and>
   1 \<le> max_iters (SimpleKMeans_init 1 10) \<and>
   fit (SimpleKMeans_init 1 10) [7, 7, 9] = Inl ZeroDivisionError"
  using C2_fit_small_cluster_count [of "[7, 7, 9]" "SimpleKMeans_init 1 10"]
  by (simp add: SimpleKMeans_init_def)

text \<open>
  Claim C5: on an image whose pixels all have the intensity \<open>v\<close> and with at least two
  clusters, the minimum and the maximum are both \<open>v\<close>, the division that computes the step
  does not fail and gives 0, all initial centroids equal \<^verbatim>\<open>float(v)\<close>, the configured
  number of rounds runs without an exception and leaves them there, and \<^verbatim>\<open>fit\<close> returns
  normally with every centroid equal to \<^verbatim>\<open>float(v)\<close>, which is \<open>v\<close> itself for every
  \<open>v\<close> of magnitude up to \<open>2 ^ 53\<close>, so for every pixel intensity.
\<close>

theorem C5_fit_uniform_image:
  assumes "data \<noteq> []" and "\<forall>x\<in>set data. x = v" and "2 \<le> n_clusters km"
  shows "py_min data = Inr v \<and> py_max data = Inr v \<and>
         py_truediv (v - v) (n_clusters km - 1) = Inr 0 \<and>
         init_centroids (n_clusters km) v 0 = replicate (nat (n_clusters km)) (py_float v) \<and>
         kmeans_rounds (nat (max_iters km)) (nat (n_clusters km)) data
             (replicate (nat (n_clusters km)) (py_float v))
           = Inr (replicate (nat (n_clusters km)) (py_float v)) \<and>
         fit km data = Inr (km\<lparr>centroids := Some (replicate (nat (n_clusters km)) (py_float v))\<rparr>) \<and>
         (\<bar>v\<bar> \<le> 2 ^ 53 \<longrightarrow> py_float v = of_int v)"
proof -
  have s: "set data = {v}" using assms(1,2) by (cases data) auto
  have k: "0 < nat (n_clusters km)" using assms(3) by simp
  have "py_min data = Inr v" using assms(1) s by (simp add: py_min_Inr)
  moreover have "py_max data = Inr v" using assms(1) s by (simp add: py_max_Inr)
  moreover have "py_truediv (v - v) (n_clusters km - 1) = Inr 0"
    using assms(3) by (simp add: py_truediv_def round_double_0)
  moreover have "\<bar>v\<bar> \<le> 2 ^ 53 \<longrightarrow> py_float v = of_int v"
    by (simp add: py_float_def round_double_of_int)
  moreover note init_centroids_zero_step kmeans_rounds_uniform[OF k assms(1,2)] fit_uniform[OF assms]
  ultimately show ?thesis by blast
qed

theorem C5_fit_uniform_image_witness:
  "[80, 80, 80, 80] \<noteq> ([] :: int list) \<and> set [80, 80, 80, 80] = {80 :: int} \<and>
   2 \<le> n_clusters (SimpleKMeans_init 3 10) \<and>
   fit (SimpleKMeans_init 3 10) [80, 80, 80, 80]
     = Inr \<lparr>n_clusters = 3, max_iters = 10, centroids = Some [80, 80, 80]\<rparr>"
  using C5_fit_uniform_image [of "[80, 80, 80, 80]" 80 "SimpleKMeans_init 3 10"]
  by (simp add: SimpleKMeans_init_def numeral_3_eq_3)









section \<open>Claims about the rank mapping\<close>

lemma nearest_is_nearest:
  assumes "cs \<noteq> []"
  shows "\<exists>i. nearest cs v = Inr i \<and> i < length cs \<and>
             (\<forall>c\<in>set cs. distance v (cs ! i) \<le> distance v c)"
proof -
  let ?ds = "map (distance v) cs"
  have ne: "?ds \<noteq> []" using assms by simp
  have "Min (set ?ds) \<in> set ?ds" using ne by (intro Min_in) auto
  from py_index_mem[OF this] obtain i where
    i: "py_index ?ds (Min (set ?ds)) = Inr i" "i < length ?ds" "?ds ! i = Min (set ?ds)"
    by blast
  have "\<forall>c\<in>set cs. distance v (cs ! i) \<le> distance v c"
  proof
    fix c assume "c \<in> set cs"
    then have "distance v c \<in> set ?ds" by simp
    then have "Min (set ?ds) \<le> distance v c" by (intro Min_le) auto
    then show "distance v (cs ! i) \<le> distance v c" using i(2,3) by simp
  qed
  then show ?thesis using i ne by (simp add: nearest_def py_min_Inr Let_def)
qed

lemma map_exn_total:
  "(\<And>x. x \<in> set xs \<Longrightarrow> \<exists>y. f x = Inr y) \<Longrightarrow>
   \<exists>ys. map_exn f xs = Inr ys \<and> length ys = length xs \<and> (\<forall>i<length xs. f (xs ! i) = Inr (ys ! i))"
proof (induction xs)
  case Nil
  then show ?case by simp
next
  case (Cons x xs)
  obtain y where y: "f x = Inr y" using Cons.prems by fastforce
  obtain ys where ys: "map_exn f xs = Inr ys" "length ys = length xs"
      "\<forall>i<length xs. f (xs ! i) = Inr (ys ! i)"
    using Cons.IH Cons.prems by fastforce
  have "\<forall>i<length (x # xs). f ((x # xs) ! i) = Inr ((y # ys) ! i)"
    using y ys(3) by (auto simp: nth_Cons split: nat.splits)
  then show ?case using y ys(1,2) by simp
qed

lemma haptic_cell_rank:
  assumes cs: "centroids km = Some cs" "length cs = 3"
    and idx: "0 \<le> y * w + x" "y * w + x < int (length pixels)"
  shows "\<exists>r<3. nearest cs (pixels ! nat (y * w + x)) = Inr r \<and>
               (\<forall>c\<in>set cs. distance (pixels ! nat (y * w + x)) (cs ! r)
                              \<le> distance (pixels ! nat (y * w + x)) c) \<and>
               haptic_cell km pixels w y x = Inr (density_table ! r)"
proof -
  let ?p = "pixels ! nat (y * w + x)"
  have g: "py_get pixels (y * w + x) = Inr ?p" using idx by (simp add: py_get_def)
  have "cs \<noteq> []" using cs(2) by auto
  from nearest_is_nearest[OF this, of ?p] obtain r where
    r: "nearest cs ?p = Inr r" "r < length cs"
       "\<forall>c\<in>set cs. distance ?p (cs ! r) \<le> distance ?p c" by blast
  have r3: "r < 3" using r(2) cs(2) by simp
  then have "r = 0 \<or> r = 1 \<or> r = 2" by linarith
  then have "py_lookup cluster_to_density r = Inr (density_table ! r)"
    by (auto simp: py_lookup_def cluster_to_density_def density_table_def)
  then have "haptic_cell km pixels w y x = Inr (density_table ! r)"
    using g r(1) cs(1) by (simp add: haptic_cell_def predict_def)
  then show ?thesis using r r3 by blast
qed

lemma py_range_length: "length (py_range n) = nat n"
  by (simp add: py_range_def)

lemma py_range_nth: "i < nat n \<Longrightarrow> py_range n ! i = int i"
  by (simp add: py_range_def)

lemma py_range_set: "v \<in> set (py_range n) \<Longrightarrow> 0 \<le> v \<and> v < n"
  by (auto simp: py_range_def)

lemma cell_index_bound:
  fixes x y w h :: int
  assumes "0 \<le> x" "x < w" "0 \<le> y" "y < h"
  shows "0 \<le> y * w + x \<and> y * w + x < w * h"
proof -
  have "y * w + x < y * w + w" using assms by simp
  also have "\<dots> = (y + 1) * w" by (simp add: algebra_simps)
  also have "\<dots> \<le> h * w" using assms by (intro mult_right_mono) simp_all
  finally have "y * w + x < w * h" by (simp add: mult.commute)
  moreover have "0 \<le> y * w" using assms by simp
  ultimately show ?thesis using assms by simp
qed

lemma build_haptic_map_rank:
  assumes cs: "centroids km = Some cs" "length cs = 3"
    and len: "int (length pixels) = w * h"
  shows "\<exists>rows. build_haptic_map km pixels w h = Inr rows \<and> length rows = nat h \<and>
           (\<forall>y<nat h. length (rows ! y) = nat w \<and>
              (\<forall>x<nat w. \<exists>r<3.
                  nearest cs (pixels ! (y * nat w + x)) = Inr r \<and>
                  (\<forall>c\<in>set cs. distance (pixels ! (y * nat w + x)) (cs ! r)
                                 \<le> distance (pixels ! (y * nat w + x)) c) \<and>
                  rows ! y ! x = density_table ! r))"
proof -
  let ?row = "\<lambda>y. map_exn (haptic_cell km pixels w y) (py_range w)"
  have cell: "\<exists>d. haptic_cell km pixels w y x = Inr d"
    if "x \<in> set (py_range w)" "y \<in> set (py_range h)" for x y
  proof -
    have "0 \<le> y * w + x \<and> y * w + x < int (length pixels)"
      using cell_index_bound[of x w y h] py_range_set[OF that(1)] py_range_set[OF that(2)] len by simp
    with haptic_cell_rank[OF cs, of y w x pixels] show ?thesis by blast
  qed
  have row: "\<exists>r. ?row y = Inr r" if "y \<in> set (py_range h)" for y
    using map_exn_total[of "py_range w" "haptic_cell km pixels w y"] cell[OF _ that] by blast
  from map_exn_total[of "py_range h" ?row] row obtain rows where
    rows: "map_exn ?row (py_range h) = Inr rows" "length rows = length (py_range h)"
      "\<forall>i<length (py_range h). ?row (py_range h ! i) = Inr (rows ! i)" by blast
  have "length (rows ! y) = nat w \<and>
        (\<forall>x<nat w. \<exists>r<3.
            nearest cs (pixels ! (y * nat w + x)) = Inr r \<and>
            (\<forall>c\<in>set cs. distance (pixels ! (y * nat w + x)) (cs ! r)
                           \<le> distance (pixels ! (y * nat w + x)) c) \<and>
            rows ! y ! x = density_table ! r)" if y: "y < nat h" for y
  proof -
    have ry: "?row (int y) = Inr (rows ! y)" using rows(3) y by (simp add: py_range_length py_range_nth)
    have ymem: "int y \<in> set (py_range h)" using y by (auto simp: py_range_def)
    from map_exn_total[of "py_range w" "haptic_cell km pixels w (int y)"] cell[OF _ ymem]
    obtain ys where ys: "?row (int y) = Inr ys" "length ys = length (py_range w)"
        "\<forall>i<length (py_range w). haptic_cell km pixels w (int y) (py_range w ! i) = Inr (ys ! i)"
      by blast
    have eq: "ys = rows ! y" using ry ys(1) by simp
    have "\<exists>r<3. nearest cs (pixels ! (y * nat w + x)) = Inr r \<and>
            (\<forall>c\<in>set cs. distance (pixels ! (y * nat w + x)) (cs ! r)
                           \<le> distance (pixels ! (y * nat w + x)) c) \<and>
            rows ! y ! x = density_table ! r" if x: "x < nat w" for x
    proof -
      have c: "haptic_cell km pixels w (int y) (int x) = Inr (rows ! y ! x)"
        using ys(3) x eq by (simp add: py_range_length py_range_nth)
      have b: "0 \<le> int y * w + int x \<and> int y * w + int x < int (length pixels)"
        using cell_index_bound[of "int x" w "int y" h] x y len by simp
      have n: "nat (int y * w + int x) = y * nat w + x"
        using x by (simp add: nat_add_distrib nat_mult_distrib)
      from haptic_cell_rank[OF cs, of "int y" w "int x" pixels] b c show ?thesis
        unfolding n by auto
    qed
    then show ?thesis using ys(2) eq by (simp add: py_range_length)
  qed
  then show ?thesis using rows(1,2) by (auto simp: build_haptic_map_def py_range_length)
qed

lemma fit_sorted:
  assumes "data \<noteq> []" and "2 \<le> n_clusters km"
  shows "\<exists>cs. fit km data = Inr (km\<lparr>centroids := Some cs\<rparr>) \<and> sorted cs \<and>
              length cs = nat (n_clusters km)"
proof -
  from fit_total[OF assms] obtain cs where
    "fit km data = Inr (km\<lparr>centroids := Some (sort cs)\<rparr>)" "length cs = nat (n_clusters km)"
    by blast
  then show ?thesis by (intro exI[of _ "sort cs"]) simp
qed


lemma argsort3: "argsort [a, b, c] =
   (if a \<le> b then (if b \<le> c then [0, 1, 2] else if a \<le> c then [0, 2, 1] else [2, 0, 1])
    else (if a \<le> c then [1, 0, 2] else if b \<le> c then [1, 2, 0] else [2, 1, 0]))"
  by (simp add: argsort_def upt_rec numeral_3_eq_3 numeral_2_eq_2) 

lemma haptic_values_any_argsort:
  fixes centers :: "rat list"
  assumes perm: "length si = 3" "distinct si" "set si = {0, 1, 2}"
    and srt: "sorted (map (\<lambda>i. centers ! i) si)"
  shows "\<exists>hv. haptic_values si = Inr hv \<and> dom hv = {0, 1, 2} \<and>
          hv (si ! 0) = Some 0 \<and> hv (si ! 1) = Some 80 \<and> hv (si ! 2) = Some 255 \<and>
          (\<forall>i<3. \<forall>j<3. centers ! i < centers ! j \<longrightarrow> the (hv i) < the (hv j))"
proof -
  obtain i0 r0 where r0: "si = i0 # r0" using perm(1) by (cases si) auto
  obtain i1 r1 where r1: "r0 = i1 # r1" using perm(1) r0 by (cases r0) auto
  obtain i2 r2 where r2: "r1 = i2 # r2" using perm(1) r0 r1 by (cases r1) auto
  have "r2 = []" using perm(1) r0 r1 r2 by simp
  then have si: "si = [i0, i1, i2]" using r0 r1 r2 by simp
  have d: "i0 \<noteq> i1" "i0 \<noteq> i2" "i1 \<noteq> i2" using perm(2) unfolding si by simp_all
  have s: "{i0, i1, i2} = {0, 1, 2}" using perm(3) unfolding si by simp
  have o: "centers ! i0 \<le> centers ! i1" "centers ! i1 \<le> centers ! i2" "centers ! i0 \<le> centers ! i2"
    using srt unfolding si by simp_all
  define hv where "hv = [i0 \<mapsto> 0, i1 \<mapsto> 80, i2 \<mapsto> (255::int)]"
  have hv: "haptic_values si = Inr hv" by (simp add: haptic_values_def si py_get_def hv_def)
  have "dom hv = {i0, i1, i2}" unfolding hv_def by (simp add: insert_commute)
  then have dm: "dom hv = {0, 1, 2}" using s by simp
  have v0: "hv i0 = Some 0" and v1: "hv i1 = Some 80" and v2: "hv i2 = Some 255"
    using d unfolding hv_def by simp_all
  have v: "hv (si ! 0) = Some 0" "hv (si ! 1) = Some 80" "hv (si ! 2) = Some 255"
    using v0 v1 v2 unfolding si by simp_all
  have mono: "\<forall>i<3. \<forall>j<3. centers ! i < centers ! j \<longrightarrow> the (hv i) < the (hv j)"
  proof (intro allI impI)
    fix i j :: nat assume i: "i < 3" and j: "j < 3" and lt: "centers ! i < centers ! j"
    have "i \<in> {0, 1, 2}" "j \<in> {0, 1, 2}" using i j by auto
    then have "i \<in> {i0, i1, i2}" "j \<in> {i0, i1, i2}" unfolding s by simp_all
    then have ci: "i = i0 \<or> i = i1 \<or> i = i2" and cj: "j = i0 \<or> j = i1 \<or> j = i2" by simp_all
    from ci cj show "the (hv i) < the (hv j)"
      using o lt v0 v1 v2 by (elim disjE) simp_all
  qed
  from hv dm v mono show ?thesis by blast
qed

lemma argsort3_perm:
  "length (argsort [a, b, c]) = 3 \<and> distinct (argsort [a, b, c]) \<and> set (argsort [a, b, c]) = {0, 1, 2} \<and>
   sorted (map (\<lambda>i. [a, b, c] ! i) (argsort [a, b, c]))"
  by (auto simp: argsort3)

lemma cluster_to_density_table: "r < 3 \<Longrightarrow> cluster_to_density r = Some (density_table ! r)"
proof -
  assume "r < 3"
  then have "r = 0 \<or> r = 1 \<or> r = 2" by linarith
  then show ?thesis by (auto simp: cluster_to_density_def density_table_def)
qed

lemma load_and_train_rank:
  assumes ne: "data \<noteq> []" and len: "int (length data) = w * h"
  shows "\<exists>km' cs rows.
           load_and_train a (Inr \<lparr>img_width = w, img_height = h, img_data = data\<rparr>)
             = Inr (a\<lparr>haptic_map := Some rows, image_width := w, image_height := h,
                      trained := True, kmeans := Some km'\<rparr>) \<and>
           centroids km' = Some cs \<and> sorted cs \<and> length cs = 3 \<and> length rows = nat h \<and>
           (\<forall>y<nat h. length (rows ! y) = nat w \<and>
              (\<forall>x<nat w. \<exists>r<3.
                  nearest cs (data ! (y * nat w + x)) = Inr r \<and>
                  (\<forall>c\<in>set cs. distance (data ! (y * nat w + x)) (cs ! r)
                                 \<le> distance (data ! (y * nat w + x)) c) \<and>
                  cluster_to_density r = Some (rows ! y ! x)))"
proof -
  let ?km0 = "SimpleKMeans_init 3 10"
  have "2 \<le> n_clusters ?km0" by (simp add: SimpleKMeans_init_def)
  from fit_sorted[OF ne this] obtain cs where
    cs: "fit ?km0 data = Inr (?km0\<lparr>centroids := Some cs\<rparr>)" "sorted cs" "length cs = 3"
    by (auto simp: SimpleKMeans_init_def)
  let ?km = "?km0\<lparr>centroids := Some cs\<rparr>"
  have c: "centroids ?km = Some cs" by simp
  from build_haptic_map_rank[OF c cs(3) len] obtain rows where
    rows: "build_haptic_map ?km data w h = Inr rows" "length rows = nat h"
      "\<forall>y<nat h. length (rows ! y) = nat w \<and>
              (\<forall>x<nat w. \<exists>r<3.
                  nearest cs (data ! (y * nat w + x)) = Inr r \<and>
                  (\<forall>c\<in>set cs. distance (data ! (y * nat w + x)) (cs ! r)
                                 \<le> distance (data ! (y * nat w + x)) c) \<and>
                  rows ! y ! x = density_table ! r)" by blast
  have lt: "load_and_train a (Inr \<lparr>img_width = w, img_height = h, img_data = data\<rparr>)
             = Inr (a\<lparr>haptic_map := Some rows, image_width := w, image_height := h,
                      trained := True, kmeans := Some ?km\<rparr>)"
    using cs(1) rows(1) by (simp add: load_and_train_def)
  have "\<forall>y<nat h. length (rows ! y) = nat w \<and>
              (\<forall>x<nat w. \<exists>r<3.
                  nearest cs (data ! (y * nat w + x)) = Inr r \<and>
                  (\<forall>c\<in>set cs. distance (data ! (y * nat w + x)) (cs ! r)
                                 \<le> distance (data ! (y * nat w + x)) c) \<and>
                  cluster_to_density r = Some (rows ! y ! x))"
    using rows(3) cluster_to_density_table by metis
  with lt c cs(2,3) rows(2) show ?thesis by blast
qed

lemma load_and_train_trained_map_ok:
  assumes "data \<noteq> []" and "int (length data) = w * h" and "1 \<le> w" and "1 \<le> h"
  shows "\<exists>a'. load_and_train a (Inr \<lparr>img_width = w, img_height = h, img_data = data\<rparr>) = Inr a' \<and>
              trained_map_ok a' \<and> image_width a' = w \<and> image_height a' = h"
proof -
  from load_and_train_rank[OF assms(1,2), of a] obtain km' cs rows where
    r: "load_and_train a (Inr \<lparr>img_width = w, img_height = h, img_data = data\<rparr>)
             = Inr (a\<lparr>haptic_map := Some rows, image_width := w, image_height := h,
                      trained := True, kmeans := Some km'\<rparr>)"
       "centroids km' = Some cs" "length rows = nat h" "\<forall>y<nat h. length (rows ! y) = nat w"
    by blast
  have "list_all (\<lambda>row. int (length row) = w) rows"
    unfolding list_all_length using r(3,4) assms(3) by simp
  then have "trained_map_ok (a\<lparr>haptic_map := Some rows, image_width := w, image_height := h,
                      trained := True, kmeans := Some km'\<rparr>)"
    using r(3) assms(3,4) by (simp add: trained_map_ok_def)
  then show ?thesis using r(1) by simp
qed

lemma haptic_map_flat_three:
  fixes c0 c1 c2 :: rat
  assumes "\<forall>l\<in>set labels. l < 3"
  shows "\<exists>ds. haptic_map_flat [c0, c1, c2] labels = Inr ds \<and> length ds = length labels \<and>
           (\<forall>k<length labels. \<forall>r<3.
               argsort [c0, c1, c2] ! r = labels ! k \<longrightarrow> ds ! k = [0, 80, 255] ! r) \<and>
           (\<forall>k<length labels. \<forall>k'<length labels.
               [c0, c1, c2] ! (labels ! k) < [c0, c1, c2] ! (labels ! k') \<longrightarrow> ds ! k < ds ! k')"
proof -
  let ?cs = "[c0, c1, c2]" and ?si = "argsort [c0, c1, c2]"
  note q = argsort3_perm[of c0 c1 c2]
  note p1 = q[THEN conjunct1] and p2 = q[THEN conjunct2, THEN conjunct1]
    and p3 = q[THEN conjunct2, THEN conjunct2, THEN conjunct1]
    and p4 = q[THEN conjunct2, THEN conjunct2, THEN conjunct2]
  from haptic_values_any_argsort[OF p1 p2 p3 p4] obtain hv where
    hv: "haptic_values ?si = Inr hv" "dom hv = {0, 1, 2}"
      "hv (?si ! 0) = Some 0" "hv (?si ! 1) = Some 80" "hv (?si ! 2) = Some 255"
      "\<forall>i<3. \<forall>j<3. ?cs ! i < ?cs ! j \<longrightarrow> the (hv i) < the (hv j)" by blast
  have lk: "py_lookup hv l = Inr (the (hv l))" if "l \<in> set labels" for l
  proof -
    have "l < 3" using that assms by blast
    then have "l = 0 \<or> l = 1 \<or> l = 2" by linarith
    then have "l \<in> {0, 1, 2}" by blast
    then have "l \<in> dom hv" unfolding hv(2) .
    then obtain d where "hv l = Some d" by blast
    then show ?thesis by (simp add: py_lookup_def)
  qed
  have m: "map_exn (py_lookup hv) labels = Inr (map (\<lambda>l. the (hv l)) labels)"
    by (rule map_exn_Inr) (rule lk)
  let ?ds = "map (\<lambda>l. the (hv l)) labels"
  have f: "haptic_map_flat ?cs labels = Inr ?ds" using hv(1) m by (simp add: haptic_map_flat_def)
  have rank: "\<forall>k<length labels. \<forall>r<3. ?si ! r = labels ! k \<longrightarrow> ?ds ! k = [0, 80, 255] ! r"
  proof (intro allI impI)
    fix k r :: nat assume k: "k < length labels" and r: "r < 3" and e: "?si ! r = labels ! k"
    have "r = 0 \<or> r = 1 \<or> r = 2" using r by linarith
    then have "hv (?si ! r) = Some ([0, 80, 255] ! r)" using hv(3,4,5) by auto
    then show "?ds ! k = [0, 80, 255] ! r" using k e by simp
  qed
  have mono: "\<forall>k<length labels. \<forall>k'<length labels.
               ?cs ! (labels ! k) < ?cs ! (labels ! k') \<longrightarrow> ?ds ! k < ?ds ! k'"
  proof (intro allI impI)
    fix k k' :: nat assume k: "k < length labels" and k': "k' < length labels"
      and lt: "?cs ! (labels ! k) < ?cs ! (labels ! k')"
    have "labels ! k < 3" "labels ! k' < 3" using assms k k' by simp_all
    with hv(6) lt have "the (hv (labels ! k)) < the (hv (labels ! k'))" by blast
    then show "?ds ! k < ?ds ! k'" using k k' by simp
  qed
  have len: "length ?ds = length labels" by simp
  from f len rank mono show ?thesis by blast
qed

text \<open>
  Claim C8, as stated: for every cluster count from two up, the centroid list is sorted and
  the pixel labels are mapped by ascending centroid rank to the fixed density table, the
  top rank to the highest density.  The tables have three entries.  With two clusters
  \<^verbatim>\<open>TissueSegmenter.train\<close> raises \<^verbatim>\<open>IndexError\<close> at \<^verbatim>\<open>sorted_indices[2]\<close>; with four,
  the label of the brightest cluster is not a key of \<^verbatim>\<open>haptic_values\<close> and the lookup
  raises \<^verbatim>\<open>KeyError\<close>.
\<close>

theorem C8_rank_mapping_counterexample:
  "haptic_map_flat [10, 200] [0, 1] = Inl IndexError \<and>
   haptic_map_flat [10, 50, 100, 200] [3] = Inl KeyError"
  by (simp add: haptic_map_flat_def haptic_values_def argsort_def py_get_def py_lookup_def
      upt_rec numeral_2_eq_2 numeral_3_eq_3)

text \<open>
  Claim C8, amended: for every cluster count from two up and every non-empty data,
  \<^verbatim>\<open>fit\<close> returns normally with a centroid list sorted in non-decreasing order, one
  centroid per cluster.  With the three clusters that \<^verbatim>\<open>load_and_train\<close> fixes, every
  cell of the haptic map holds the table entry of the rank, in the sorted list, of a
  centroid at the least distance \<^verbatim>\<open>abs(val - c)\<close> from its pixel, and the table
  \<open>0, 128, 255\<close> rises with the rank.  In \<^verbatim>\<open>TissueSegmenter.train\<close>, for any three cluster
  centres in any order and any listing of the three labels by ascending centre
  (\<^verbatim>\<open>argsort\<close> gives one), the dictionary \<^verbatim>\<open>haptic_values\<close> has the three labels as keys,
  gives 0, 80 and 255 to the labels of rank 0, 1 and 2, and gives a label with a smaller
  centre a smaller density; and \<^verbatim>\<open>haptic_map_flat\<close> holds, for every pixel label, the
  density 0, 80 or 255 of the label's rank.
\<close>

theorem C8_sorted_centroids_rank_mapping:
  assumes "data \<noteq> []" and "2 \<le> n_clusters km"
  shows "(\<exists>cs. fit km data = Inr (km\<lparr>centroids := Some cs\<rparr>) \<and> sorted cs \<and>
               length cs = nat (n_clusters km)) \<and>
         (\<forall>a w h. int (length data) = w * h \<longrightarrow>
            (\<exists>km' cs rows.
               load_and_train a (Inr \<lparr>img_width = w, img_height = h, img_data = data\<rparr>)
                 = Inr (a\<lparr>haptic_map := Some rows, image_width := w, image_height := h,
                          trained := True, kmeans := Some km'\<rparr>) \<and>
               centroids km' = Some cs \<and> sorted cs \<and> length cs = 3 \<and> length rows = nat h \<and>
               (\<forall>y<nat h. length (rows ! y) = nat w \<and>
                  (\<forall>x<nat w. \<exists>r<3.
                      nearest cs (data ! (y * nat w + x)) = Inr r \<and>
                      (\<forall>c\<in>set cs. distance (data ! (y * nat w + x)) (cs ! r)
                                     \<le> distance (data ! (y * nat w + x)) c) \<and>
                      cluster_to_density r = Some (rows ! y ! x))))) \<and>
         cluster_to_density 0 = Some 0 \<and> cluster_to_density 1 = Some 128 \<and>
         cluster_to_density 2 = Some 255 \<and>
         (\<forall>(centers :: rat list) si.
             length si = 3 \<and> distinct si \<and> set si = {0, 1, 2} \<and>
             sorted (map (\<lambda>i. centers ! i) si) \<longrightarrow>
             (\<exists>hv. haptic_values si = Inr hv \<and> dom hv = {0, 1, 2} \<and>
                hv (si ! 0) = Some 0 \<and> hv (si ! 1) = Some 80 \<and> hv (si ! 2) = Some 255 \<and>
                (\<forall>i<3. \<forall>j<3. centers ! i < centers ! j \<longrightarrow> the (hv i) < the (hv j)))) \<and>
         (\<forall>(c0 :: rat) c1 c2.
             length (argsort [c0, c1, c2]) = 3 \<and> distinct (argsort [c0, c1, c2]) \<and>
             set (argsort [c0, c1, c2]) = {0, 1, 2} \<and>
             sorted (map (\<lambda>i. [c0, c1, c2] ! i) (argsort [c0, c1, c2]))) \<and>
         (\<forall>(c0 :: rat) c1 c2 labels.
             (\<forall>l\<in>set labels. l < 3) \<longrightarrow>
             (\<exists>ds. haptic_map_flat [c0, c1, c2] labels = Inr ds \<and> length ds = length labels \<and>
                (\<forall>k<length labels. \<forall>r<3.
                    argsort [c0, c1, c2] ! r = labels ! k \<longrightarrow> ds ! k = [0, 80, 255] ! r) \<and>
                (\<forall>k<length labels. \<forall>k'<length labels.
                    [c0, c1, c2] ! (labels ! k) < [c0, c1, c2] ! (labels ! k') \<longrightarrow>
                    ds ! k < ds ! k')))"
proof -
  note fit_sorted[OF assms]
  moreover have "\<forall>a w h. int (length data) = w * h \<longrightarrow>
            (\<exists>km' cs rows.
               load_and_train a (Inr \<lparr>img_width = w, img_height = h, img_data = data\<rparr>)
                 = Inr (a\<lparr>haptic_map := Some rows, image_width := w, image_height := h,
                          trained := True, kmeans := Some km'\<rparr>) \<and>
               centroids km' = Some cs \<and> sorted cs \<and> length cs = 3 \<and> length rows = nat h \<and>
               (\<forall>y<nat h. length (rows ! y) = nat w \<and>
                  (\<forall>x<nat w. \<exists>r<3.
                      nearest cs (data ! (y * nat w + x)) = Inr r \<and>
                      (\<forall>c\<in>set cs. distance (data ! (y * nat w + x)) (cs ! r)
                                     \<le> distance (data ! (y * nat w + x)) c) \<and>
                      cluster_to_density r = Some (rows ! y ! x))))"
    using load_and_train_rank[OF assms(1)] by blast
  moreover have "cluster_to_density 0 = Some 0 \<and> cluster_to_density 1 = Some 128 \<and>
         cluster_to_density 2 = Some 255"
    by (simp add: cluster_to_density_def)
  moreover have "\<forall>(centers :: rat list) si.
             length si = 3 \<and> distinct si \<and> set si = {0, 1, 2} \<and>
             sorted (map (\<lambda>i. centers ! i) si) \<longrightarrow>
             (\<exists>hv. haptic_values si = Inr hv \<and> dom hv = {0, 1, 2} \<and>
                hv (si ! 0) = Some 0 \<and> hv (si ! 1) = Some 80 \<and> hv (si ! 2) = Some 255 \<and>
                (\<forall>i<3. \<forall>j<3. centers ! i < centers ! j \<longrightarrow> the (hv i) < the (hv j)))"
  proof (intro allI impI)
    fix centers :: "rat list" and si :: "nat list"
    assume h: "length si = 3 \<and> distinct si \<and> set si = {0, 1, 2} \<and>
             sorted (map (\<lambda>i. centers ! i) si)"
    then have h1: "length si = 3" and h2: "distinct si" and h3: "set si = {0, 1, 2}"
      and h4: "sorted (map (\<lambda>i. centers ! i) si)" by simp_all
    show "\<exists>hv. haptic_values si = Inr hv \<and> dom hv = {0, 1, 2} \<and>
                hv (si ! 0) = Some 0 \<and> hv (si ! 1) = Some 80 \<and> hv (si ! 2) = Some 255 \<and>
                (\<forall>i<3. \<forall>j<3. centers ! i < centers ! j \<longrightarrow> the (hv i) < the (hv j))"
      by (rule haptic_values_any_argsort[OF h1 h2 h3 h4])
  qed
  moreover have "\<forall>(c0 :: rat) c1 c2.
             length (argsort [c0, c1, c2]) = 3 \<and> distinct (argsort [c0, c1, c2]) \<and>
             set (argsort [c0, c1, c2]) = {0, 1, 2} \<and>
             sorted (map (\<lambda>i. [c0, c1, c2] ! i) (argsort [c0, c1, c2]))"
    by (intro allI) (rule argsort3_perm)
  moreover have "\<forall>(c0 :: rat) c1 c2 labels.
             (\<forall>l\<in>set labels. l < 3) \<longrightarrow>
             (\<exists>ds. haptic_map_flat [c0, c1, c2] labels = Inr ds \<and> length ds = length labels \<and>
                (\<forall>k<length labels. \<forall>r<3.
                    argsort [c0, c1, c2] ! r = labels ! k \<longrightarrow> ds ! k = [0, 80, 255] ! r) \<and>
                (\<forall>k<length labels. \<forall>k'<length labels.
                    [c0, c1, c2] ! (labels ! k) < [c0, c1, c2] ! (labels ! k') \<longrightarrow>
                    ds ! k < ds ! k'))"
    by (intro allI impI) (rule haptic_map_flat_three)
  ultimately show ?thesis by blast
qed

theorem C8_sorted_centroids_rank_mapping_witness:
  "[240, 20, 150, 20] \<noteq> ([] :: int list) \<and> 2 \<le> n_clusters (SimpleKMeans_init 3 10) \<and>
   int (length [240, 20, 150, 20 :: int]) = 2 * 2 \<and>
   (\<exists>cs. fit (SimpleKMeans_init 3 10) [240, 20, 150, 20]
            = Inr ((SimpleKMeans_init 3 10)\<lparr>centroids := Some cs\<rparr>) \<and> sorted cs \<and> length cs = 3) \<and>
   (\<exists>km' rows.
       load_and_train TissueAnalyzer_init
           (Inr \<lparr>img_width = 2, img_height = 2, img_data = [240, 20, 150, 20]\<rparr>)
         = Inr (TissueAnalyzer_init\<lparr>haptic_map := Some rows, image_width := 2, image_height := 2,
                  trained := True, kmeans := Some km'\<rparr>) \<and> length rows = 2) \<and>
   list_all (\<lambda>l. l < 3) [2, 1, 0, 1 :: nat] \<and>
   (\<exists>ds. haptic_map_flat [150, 20, 240] [2, 1, 0, 1] = Inr ds \<and>
         length ds = length [2, 1, 0, 1 :: nat]) \<and>
   haptic_map_flat [150, 20, 240] [2, 1, 0, 1] = Inr [255, 0, 80, 0]"
proof -
  have a: "[240, 20, 150, 20] \<noteq> ([] :: int list)" by simp
  have b: "2 \<le> n_clusters (SimpleKMeans_init 3 10)" by (simp add: SimpleKMeans_init_def)
  have c: "int (length [240, 20, 150, 20 :: int]) = 2 * 2" by simp
  note t = C8_sorted_centroids_rank_mapping [OF a b]
  from t[THEN conjunct1] have 1: "\<exists>cs. fit (SimpleKMeans_init 3 10) [240, 20, 150, 20]
            = Inr ((SimpleKMeans_init 3 10)\<lparr>centroids := Some cs\<rparr>) \<and> sorted cs \<and> length cs = 3"
    by (simp add: SimpleKMeans_init_def)
  note u = t[THEN conjunct2, THEN conjunct1, THEN spec[where x = TissueAnalyzer_init],
      THEN spec[where x = 2], THEN spec[where x = 2], THEN mp, OF c]
  from u obtain km' cs rows where
    r: "load_and_train TissueAnalyzer_init
           (Inr \<lparr>img_width = 2, img_height = 2, img_data = [240, 20, 150, 20]\<rparr>)
         = Inr (TissueAnalyzer_init\<lparr>haptic_map := Some rows, image_width := 2, image_height := 2,
                  trained := True, kmeans := Some km'\<rparr>)"
       "centroids km' = Some cs" "length rows = nat 2"
    by blast
  have "length rows = 2" using r(3) by simp
  with r(1) have 2: "\<exists>km' rows.
       load_and_train TissueAnalyzer_init
           (Inr \<lparr>img_width = 2, img_height = 2, img_data = [240, 20, 150, 20]\<rparr>)
         = Inr (TissueAnalyzer_init\<lparr>haptic_map := Some rows, image_width := 2, image_height := 2,
                  trained := True, kmeans := Some km'\<rparr>) \<and> length rows = 2"
    by blast
  have l: "\<forall>l\<in>set [2, 1, 0, 1 :: nat]. l < 3" by simp
  have l': "list_all (\<lambda>l. l < 3) [2, 1, 0, 1 :: nat]" by simp
  note v = t[THEN conjunct2, THEN conjunct2, THEN conjunct2, THEN conjunct2, THEN conjunct2,
      THEN conjunct2, THEN conjunct2, THEN spec[where x = 150], THEN spec[where x = 20],
      THEN spec[where x = 240], THEN spec[where x = "[2, 1, 0, 1]"], THEN mp, OF l]
  from v have 3: "\<exists>ds. haptic_map_flat [150, 20, 240] [2, 1, 0, 1] = Inr ds \<and>
         length ds = length [2, 1, 0, 1 :: nat]" by blast
  have 4: "haptic_map_flat [150, 20, 240] [2, 1, 0, 1] = Inr [255, 0, 80, 0]"
    by (simp add: haptic_map_flat_def haptic_values_def argsort_def py_get_def py_lookup_def
        upt_rec numeral_2_eq_2 numeral_3_eq_3)
  from a b c 1 2 l' 3 4 show ?thesis by (intro conjI)
qed


section \<open>Claims about the spatial lookup\<close>

lemma clamp_coord_eq: "1 \<le> n \<Longrightarrow> max 0 (min x (n - 1)) = clamp_coord n x"
  by (simp add: clamp_coord_def)

lemma clamp_coord_bounds: "1 \<le> n \<Longrightarrow> 0 \<le> clamp_coord n x \<and> clamp_coord n x < n"
  by (simp add: clamp_coord_def)

lemma clamp_coord_idem: "1 \<le> n \<Longrightarrow> clamp_coord n (clamp_coord n x) = clamp_coord n x"
  by (simp add: clamp_coord_def)

lemma get_density_at_trained:
  assumes "trained_map_ok a" and "haptic_map a = Some rows"
  shows "get_density_at a x y =
         Inr (rows ! nat (clamp_coord (image_height a) y) ! nat (clamp_coord (image_width a) x))"
proof -
  let ?w = "image_width a" and ?h = "image_height a"
  have t: "trained a" and w: "1 \<le> ?w" and h: "1 \<le> ?h" and len: "int (length rows) = ?h"
    and rowlen: "list_all (\<lambda>row. int (length row) = ?w) rows"
    using assms by (simp_all add: trained_map_ok_def)
  let ?y = "clamp_coord ?h y" and ?x = "clamp_coord ?w x"
  have yb: "0 \<le> ?y \<and> ?y < int (length rows)" using clamp_coord_bounds[OF h] len by simp
  then have r: "py_get rows ?y = Inr (rows ! nat ?y)" by (simp add: py_get_def)
  have "nat ?y < length rows" using yb by linarith
  then have "rows ! nat ?y \<in> set rows" by (rule nth_mem)
  then have "int (length (rows ! nat ?y)) = ?w" using rowlen by (simp add: list_all_iff)
  then have "0 \<le> ?x \<and> ?x < int (length (rows ! nat ?y))" using clamp_coord_bounds[OF w] by simp
  then have c: "py_get (rows ! nat ?y) ?x = Inr (rows ! nat ?y ! nat ?x)" by (simp add: py_get_def)
  show ?thesis
    using t assms(2) r c by (simp add: get_density_at_def clamp_coord_eq[OF w] clamp_coord_eq[OF h])
qed

lemma get_haptic_value_outside:
  "nd_shape arr = (h, w) \<Longrightarrow> \<not> (0 \<le> y \<and> y < h \<and> 0 \<le> x \<and> x < w) \<Longrightarrow>
   get_haptic_value (Some arr) x y = Inr 0"
  by (auto simp: get_haptic_value_def)

text \<open>
  Claim C6, as stated: every query clamps out-of-range coordinates.
  \<^verbatim>\<open>TissueSegmenter.get_haptic_value\<close> guards the access instead and answers 0 outside the
  map: on a one-pixel map of density 255 the query at \<open>(-5, -5)\<close> gives 0, the query at
  \<open>(0, 0)\<close> gives 255.
\<close>

theorem C6_query_clamps_counterexample:
  "get_haptic_value (Some \<lparr>nd_shape = (1, 1), nd_rows = [[255]]\<rparr>) (- 5) (- 5) = Inr 0 \<and>
   get_haptic_value (Some \<lparr>nd_shape = (1, 1), nd_rows = [[255]]\<rparr>) 0 0 = Inr 255"
  by (simp add: get_haptic_value_def py_get_def)

text \<open>
  Claim C6, amended: on every trained map of \<^verbatim>\<open>TissueAnalyzer\<close>, \<^verbatim>\<open>get_density_at\<close> at any
  integer coordinates returns normally and equals \<^verbatim>\<open>get_density_at\<close> at the coordinates
  clamped into \<open>[0, width - 1]\<close> and \<open>[0, height - 1]\<close>; so the query at \<open>(-5, -5)\<close> equals
  the one at \<open>(0, 0)\<close> and the query at \<open>(width + 10, height + 10)\<close> equals the one at
  \<open>(width - 1, height - 1)\<close>.  \<^verbatim>\<open>TissueSegmenter.get_haptic_value\<close> does not clamp: it
  returns 0 at every coordinate outside its map.
\<close>

theorem C6_get_density_at_clamps:
  assumes "trained_map_ok a"
  shows "get_density_at a x y
           = get_density_at a (clamp_coord (image_width a) x) (clamp_coord (image_height a) y) \<and>
         (\<exists>d. get_density_at a x y = Inr d) \<and>
         get_density_at a (- 5) (- 5) = get_density_at a 0 0 \<and>
         get_density_at a (image_width a + 10) (image_height a + 10)
           = get_density_at a (image_width a - 1) (image_height a - 1) \<and>
         (\<forall>arr h w. nd_shape arr = (h, w) \<and> (x < 0 \<or> w \<le> x \<or> y < 0 \<or> h \<le> y)
             \<longrightarrow> get_haptic_value (Some arr) x y = Inr 0)"
proof -
  obtain rows where rows: "haptic_map a = Some rows"
    using assms by (auto simp: trained_map_ok_def split: option.splits)
  have w: "1 \<le> image_width a" and h: "1 \<le> image_height a"
    using assms rows by (simp_all add: trained_map_ok_def)
  note g = get_density_at_trained[OF assms rows]
  have 1: "get_density_at a x y
           = get_density_at a (clamp_coord (image_width a) x) (clamp_coord (image_height a) y)"
    by (simp only: g clamp_coord_idem[OF w] clamp_coord_idem[OF h])
  have 2: "\<exists>d. get_density_at a x y = Inr d" by (simp add: g)
  have 3: "get_density_at a (- 5) (- 5) = get_density_at a 0 0"
    using w h by (simp add: g clamp_coord_def)
  have 4: "get_density_at a (image_width a + 10) (image_height a + 10)
           = get_density_at a (image_width a - 1) (image_height a - 1)"
    using w h by (simp add: g clamp_coord_def)
  have 5: "\<forall>arr h w. nd_shape arr = (h, w) \<and> (x < 0 \<or> w \<le> x \<or> y < 0 \<or> h \<le> y)
             \<longrightarrow> get_haptic_value (Some arr) x y = Inr 0"
    by (auto intro!: get_haptic_value_outside)
  from 1 2 3 4 5 show ?thesis by blast
qed

theorem C6_get_density_at_clamps_witness:
  "trained_map_ok analyzer2 \<and>
   get_density_at analyzer2 (- 5) 7 = get_density_at analyzer2 0 1 \<and>
   get_density_at analyzer2 (- 5) 7 = Inr 255"
  using C6_get_density_at_clamps [of analyzer2 "- 5" 7]
  by (simp add: analyzer2_def trained_map_ok_def clamp_coord_def get_density_at_def py_get_def)

lemma py_int_of_int: "py_int (of_int z) = z"
  by (simp add: py_int_def)

lemma py_int_abs: "\<bar>py_int r\<bar> = \<lfloor>\<bar>r\<bar>\<rfloor>"
  unfolding py_int_def
  apply (cases "0 \<le> r")
   apply simp
  apply (simp add: ceiling_def)
  done

lemma py_int_sign: "(0 \<le> r \<longrightarrow> 0 \<le> py_int r) \<and> (r \<le> 0 \<longrightarrow> py_int r \<le> 0)"
  unfolding py_int_def by (auto simp: ceiling_le_iff)


lemma fmul_zero: "fmul 0 y = 0"
  by (simp add: fmul_def round_double_0)

lemma fmul_one_float: "\<bar>w\<bar> \<le> 2 ^ 53 \<Longrightarrow> fmul 1 (py_float w) = of_int w"
  by (simp add: fmul_def py_float_def round_double_of_int)

lemma fmul_three_tenths:
  "fmul (5404319552844595 / 18014398509481984) (py_float 200) = 60"
proof -
  have f: "py_float 200 = 200" using round_double_of_int[of 200] by (simp add: py_float_def)
  have "round_double (5404319552844595 / 18014398509481984 * 200) = of_int 8444249301319680 * (1 / 2 ^ 47)"
    by (rule round_double_at[where k = 5]) (simp_all add: power_int_minus)
  then show ?thesis by (simp add: fmul_def f)
qed

text \<open>
  Claim C7: a normalized query is the pixel query at the normalized coordinates multiplied
  by the map dimensions, the product rounded to a double as the code's float
  multiplication rounds it, and truncated toward zero (\<^verbatim>\<open>int()\<close> keeps the sign and takes
  the floor of the magnitude); the pixel query then clamps, so on a trained map the result
  is the cell at the clamped coordinates.  Hence the normalized query at \<open>(0, 0)\<close> equals
  the pixel query at \<open>(0, 0)\<close>, and, for dimensions a double holds exactly, the one at
  \<open>(1, 1)\<close> equals the pixel query at \<open>(width - 1, height - 1)\<close>.
\<close>

theorem C7_normalized_query:
  "get_density_normalized a x_norm y_norm
     = get_density_at a (py_int (fmul x_norm (py_float (image_width a))))
                        (py_int (fmul y_norm (py_float (image_height a)))) \<and>
   fmul x_norm (py_float (image_width a)) = round_double (x_norm * round_double (of_int (image_width a))) \<and>
   \<bar>py_int r\<bar> = \<lfloor>\<bar>r\<bar>\<rfloor> \<and> (0 \<le> r \<longrightarrow> 0 \<le> py_int r) \<and> (r \<le> 0 \<longrightarrow> py_int r \<le> 0) \<and>
   get_density_normalized a 0 0 = get_density_at a 0 0 \<and>
   (\<bar>image_width a\<bar> \<le> 2 ^ 53 \<and> \<bar>image_height a\<bar> \<le> 2 ^ 53 \<longrightarrow>
      get_density_normalized a 1 1 = get_density_at a (image_width a - 1) (image_height a - 1)) \<and>
   (trained_map_ok a \<longrightarrow>
      (\<exists>rows. haptic_map a = Some rows \<and>
         get_density_normalized a x_norm y_norm =
           Inr (rows ! nat (clamp_coord (image_height a)
                              (py_int (fmul y_norm (py_float (image_height a)))))
                     ! nat (clamp_coord (image_width a)
                              (py_int (fmul x_norm (py_float (image_width a))))))))"
proof -
  have 1: "get_density_normalized a x_norm y_norm
     = get_density_at a (py_int (fmul x_norm (py_float (image_width a))))
                        (py_int (fmul y_norm (py_float (image_height a))))" for x_norm y_norm
    by (simp add: get_density_normalized_def get_density_at_def)
  have mul: "fmul x_norm (py_float (image_width a))
              = round_double (x_norm * round_double (of_int (image_width a)))"
    by (simp add: fmul_def py_float_def)
  have 2: "get_density_normalized a 0 0 = get_density_at a 0 0"
    by (simp add: 1 fmul_zero py_int_def)
  have 3: "\<bar>image_width a\<bar> \<le> 2 ^ 53 \<and> \<bar>image_height a\<bar> \<le> 2 ^ 53 \<longrightarrow>
      get_density_normalized a 1 1 = get_density_at a (image_width a - 1) (image_height a - 1)"
  proof
    assume b: "\<bar>image_width a\<bar> \<le> 2 ^ 53 \<and> \<bar>image_height a\<bar> \<le> 2 ^ 53"
    then have w: "fmul 1 (py_float (image_width a)) = of_int (image_width a)"
      and h: "fmul 1 (py_float (image_height a)) = of_int (image_height a)"
      by (simp_all add: fmul_one_float)
    show "get_density_normalized a 1 1 = get_density_at a (image_width a - 1) (image_height a - 1)"
      unfolding 1 w h py_int_of_int
      by (cases "haptic_map a") (simp_all add: get_density_at_def)
  qed
  have 4: "trained_map_ok a \<longrightarrow>
      (\<exists>rows. haptic_map a = Some rows \<and>
         get_density_normalized a x_norm y_norm =
           Inr (rows ! nat (clamp_coord (image_height a)
                              (py_int (fmul y_norm (py_float (image_height a)))))
                     ! nat (clamp_coord (image_width a)
                              (py_int (fmul x_norm (py_float (image_width a)))))))"
  proof
    assume ok: "trained_map_ok a"
    then obtain rows where rows: "haptic_map a = Some rows"
      by (auto simp: trained_map_ok_def split: option.splits)
    show "\<exists>rows. haptic_map a = Some rows \<and>
         get_density_normalized a x_norm y_norm =
           Inr (rows ! nat (clamp_coord (image_height a)
                              (py_int (fmul y_norm (py_float (image_height a)))))
                     ! nat (clamp_coord (image_width a)
                              (py_int (fmul x_norm (py_float (image_width a))))))"
      using rows get_density_at_trained[OF ok rows] by (simp add: 1)
  qed
  from 1 mul 2 3 4 py_int_abs py_int_sign show ?thesis by blast
qed

theorem C7_normalized_query_witness:
  "trained_map_ok analyzer2 \<and>
   \<bar>image_width analyzer2\<bar> \<le> 2 ^ 53 \<and> \<bar>image_height analyzer2\<bar> \<le> 2 ^ 53 \<and>
   get_density_normalized analyzer2 (1 / 2) 0 = get_density_at analyzer2 1 0 \<and>
   get_density_normalized analyzer2 (1 / 2) 0 = Inr 128 \<and>
   get_density_normalized analyzer2 1 1 = get_density_at analyzer2 1 1 \<and>
   get_density_normalized analyzer2 1 1 = Inr 0 \<and>
   get_density_normalized analyzer_wide (5404319552844595 / 18014398509481984) 0
     = get_density_at analyzer_wide 60 0"
proof -
  have ok: "trained_map_ok analyzer2" by (simp add: analyzer2_def trained_map_ok_def)
  have b: "\<bar>image_width analyzer2\<bar> \<le> 2 ^ 53 \<and> \<bar>image_height analyzer2\<bar> \<le> 2 ^ 53"
    by (simp add: analyzer2_def)
  have f2: "py_float 2 = 2" using round_double_of_int[of 2] by (simp add: py_float_def)
  have m1: "fmul (1 / 2) (py_float 2) = 1"
    using round_double_of_int[of 1] by (simp add: fmul_def f2)
  have m0: "fmul 0 (py_float 2) = 0" by (rule fmul_zero)
  note t = C7_normalized_query [of analyzer2 "1 / 2" 0 0]
  have 1: "get_density_normalized analyzer2 (1 / 2) 0 = get_density_at analyzer2 1 0"
    using t[THEN conjunct1] m1 m0 by (simp add: analyzer2_def py_int_def)
  have 2: "get_density_at analyzer2 1 0 = Inr 128"
    by (simp add: analyzer2_def get_density_at_def py_get_def)
  note t3 = t[THEN conjunct2, THEN conjunct2, THEN conjunct2, THEN conjunct2, THEN conjunct2,
      THEN conjunct2, THEN conjunct1, THEN mp, OF b]
  have 3: "get_density_normalized analyzer2 1 1 = get_density_at analyzer2 1 1"
    using t3 by (simp add: analyzer2_def)
  have 4: "get_density_at analyzer2 1 1 = Inr 0"
    by (simp add: analyzer2_def get_density_at_def py_get_def)
  note tw = C7_normalized_query [of analyzer_wide "5404319552844595 / 18014398509481984" 0 0,
      THEN conjunct1]
  have 5: "get_density_normalized analyzer_wide (5404319552844595 / 18014398509481984) 0
     = get_density_at analyzer_wide 60 0"
    using tw fmul_three_tenths by (simp add: analyzer_wide_def fmul_zero py_int_def)
  from ok b 1 2 3 4 5 show ?thesis by simp
qed


section \<open>Claims about the transport session\<close>


lemma density_frame_200: "density_frame 200 = ''D:200'' @ [CHR 0x0A]"
  by (simp add: density_frame_def str_int_def str_nat.simps digit_char_def)

lemma density_frame_0: "density_frame 0 = ''D:0'' @ [CHR 0x0A]"
  by (simp add: density_frame_def str_int_def str_nat.simps digit_char_def)

lemma disconnect_idem: "disconnect (disconnect m) = disconnect m"
  by (cases "serial m") (simp_all add: disconnect_def serial_close_def)

lemma disconnect_never_connected: "serial m = None \<Longrightarrow> disconnect m = m"
  by (simp add: disconnect_def)

lemma disconnect_writes_nothing: "frames_written (disconnect m) = frames_written m"
  by (cases "serial m") (simp_all add: disconnect_def serial_close_def frames_written_def)

text \<open>
  Claim C1 on a concrete run: a session connects, \<^verbatim>\<open>send_density(200)\<close> writes the frame
  \<^verbatim>\<open>D:200\<close>, and \<^verbatim>\<open>disconnect\<close> (alone or through \<^verbatim>\<open>shutdown\<close>) closes the port.  The
  claim asks for the zero-density frame \<^verbatim>\<open>D:0\<close> as the last write; the last frame on the
  wire is still \<^verbatim>\<open>D:200\<close>, since \<^verbatim>\<open>disconnect\<close> writes nothing.  A second \<^verbatim>\<open>disconnect\<close>
  changes nothing more, and on a session that never connected \<^verbatim>\<open>disconnect\<close> changes
  nothing at all.
\<close>

theorem C1_disconnect_last_frame:
  "send_density connected_mcu 1 False 200 = Inr sent_200 \<and>
   disconnect sent_200
     = sent_200\<lparr>serial := Some \<lparr>is_open = False, written = [''D:200'' @ [CHR 0x0A]]\<rparr>\<rparr> \<and>
   frames_written (disconnect sent_200) = [''D:200'' @ [CHR 0x0A]] \<and>
   frames_written (mcu (shutdown (scanner1\<lparr>mcu := sent_200\<rparr>))) = [''D:200'' @ [CHR 0x0A]] \<and>
   density_frame 0 = ''D:0'' @ [CHR 0x0A] \<and>
   last (frames_written (disconnect sent_200)) \<noteq> density_frame 0 \<and>
   disconnect (disconnect sent_200) = disconnect sent_200 \<and>
   disconnect MCUCommunicator_init = MCUCommunicator_init"
  by (simp add: sent_200_def connected_mcu_def connect_def MCUCommunicator_init_def send_density_def
      serial_write_def density_frame_200 density_frame_0 disconnect_def serial_close_def
      frames_written_def shutdown_def)

text \<open>
  Claim C3, as stated: a write that raises demotes the session to offline, and every
  later send is a silent no-op.  On a connected session a failed write at time 1 leaves
  the session as it was, with \<^verbatim>\<open>demo_mode\<close> still false, and the next send, at time 1.1,
  writes its frame.
\<close>

theorem C3_write_failure_demotes_counterexample:
  "send_density connected_mcu 1 True 200 = Inr connected_mcu \<and>
   demo_mode connected_mcu = False \<and>
   send_density connected_mcu (11 / 10) False 200
     = Inr (connected_mcu\<lparr>serial := Some \<lparr>is_open = True, written = [''D:200'' @ [CHR 0x0A]]\<rparr>,
                          last_send_time := 11 / 10\<rparr>)"
  by (simp add: connected_mcu_def connect_def MCUCommunicator_init_def send_density_def
      serial_write_def density_frame_200)

text \<open>
  Claim C3, amended: if the write raises during \<^verbatim>\<open>send_density\<close> on a session that has a
  port and is not in demo mode, the call returns normally and the session is unchanged
  (it is not demoted, and the time of the last send is not advanced); a later call whose
  write succeeds on the open port, once the interval since the last successful send has
  passed, writes its frame.
\<close>

theorem C3_write_failure_absorbed:
  assumes "serial m = Some p" and "\<not> demo_mode m"
  shows "send_density m t True d = Inr m \<and>
         (is_open p \<and> send_interval m \<le> t' - last_send_time m \<longrightarrow>
            send_density m t' False d'
              = Inr (m\<lparr>serial := Some (p\<lparr>written := written p @ [density_frame d']\<rparr>),
                       last_send_time := t'\<rparr>))"
  using assms by (simp add: send_density_def serial_write_def)

theorem C3_write_failure_absorbed_witness:
  "serial connected_mcu = Some \<lparr>is_open = True, written = []\<rparr> \<and> \<not> demo_mode connected_mcu \<and>
   send_density connected_mcu 2 True 7 = Inr connected_mcu \<and>
   send_density connected_mcu 2 False 7
     = Inr (connected_mcu\<lparr>serial := Some \<lparr>is_open = True, written = [density_frame 7]\<rparr>,
                          last_send_time := 2\<rparr>)"
  using C3_write_failure_absorbed [of connected_mcu "\<lparr>is_open = True, written = []\<rparr>" 2 7 2 7]
  by (simp add: connected_mcu_def connect_def MCUCommunicator_init_def)

lemma send_density_cases:
  "send_density m t f d = Inr m \<or>
   (send_interval m \<le> t - last_send_time m \<and>
    (\<exists>m'. send_density m t f d = Inr m' \<and> last_send_time m' = t \<and>
          send_interval m' = send_interval m \<and>
          frames_written m' = frames_written m @ [density_frame d]))"
  by (auto simp: send_density_def serial_write_def frames_written_def split: option.splits)

lemma floor_step:
  fixes a b :: rat
  assumes "0 \<le> a" "a + 1 \<le> b"
  shows "1 + nat \<lfloor>a\<rfloor> \<le> nat \<lfloor>b\<rfloor>"
proof -
  have "\<lfloor>a\<rfloor> + 1 = \<lfloor>a + 1\<rfloor>" by simp
  also have "\<dots> \<le> \<lfloor>b\<rfloor>" using assms(2) by (rule floor_mono)
  finally have "\<lfloor>a\<rfloor> + 1 \<le> \<lfloor>b\<rfloor>" .
  moreover have "0 \<le> \<lfloor>a\<rfloor>" using assms(1) by simp
  ultimately show ?thesis by linarith
qed

lemma sends_after_last:
  "0 < send_interval m \<Longrightarrow> sorted (last_send_time m # map fst calls) \<Longrightarrow>
   \<forall>t\<in>set (map fst calls). t \<le> tend \<Longrightarrow> last_send_time m \<le> tend \<Longrightarrow>
   \<exists>m'. send_density_calls m calls = Inr m' \<and> send_interval m' = send_interval m \<and>
        length (frames_written m')
          \<le> length (frames_written m) + nat \<lfloor>(tend - last_send_time m) / send_interval m\<rfloor>"
proof (induction calls arbitrary: m)
  case Nil
  then show ?case by simp
next
  case (Cons c calls)
  obtain t f d where c: "c = (t, f, d)" by (cases c)
  have tL: "last_send_time m \<le> t" and tE: "t \<le> tend" using Cons.prems c by simp_all
  have srt: "sorted (t # map fst calls)" using Cons.prems(2) c by simp
  have upper: "\<forall>t\<in>set (map fst calls). t \<le> tend" using Cons.prems(3) by simp
  from send_density_cases[of m t f d] show ?case
  proof
    assume same: "send_density m t f d = Inr m"
    have "sorted (last_send_time m # map fst calls)"
      using srt tL by (auto simp: order_trans)
    from Cons.IH[OF Cons.prems(1) this upper Cons.prems(4)] show ?thesis
      using same c by simp
  next
    assume "send_interval m \<le> t - last_send_time m \<and>
      (\<exists>m'. send_density m t f d = Inr m' \<and> last_send_time m' = t \<and>
          send_interval m' = send_interval m \<and>
          frames_written m' = frames_written m @ [density_frame d])"
    then obtain m1 where gap: "send_interval m \<le> t - last_send_time m"
      and m1: "send_density m t f d = Inr m1" "last_send_time m1 = t"
        "send_interval m1 = send_interval m"
        "frames_written m1 = frames_written m @ [density_frame d]" by blast
    have i1: "0 < send_interval m1" using Cons.prems(1) m1(3) by simp
    have s1: "sorted (last_send_time m1 # map fst calls)" using srt m1(2) by simp
    have e1: "last_send_time m1 \<le> tend" using tE m1(2) by simp
    from Cons.IH[OF i1 s1 upper e1] obtain m2 where
      m2: "send_density_calls m1 calls = Inr m2" "send_interval m2 = send_interval m1"
        "length (frames_written m2)
          \<le> length (frames_written m1) + nat \<lfloor>(tend - last_send_time m1) / send_interval m1\<rfloor>"
      by blast
    let ?I = "send_interval m"
    have a0: "0 \<le> (tend - t) / ?I" using tE Cons.prems(1) by simp
    have "(tend - t) / ?I + 1 = (tend - t + ?I) / ?I"
      using Cons.prems(1) by (simp add: add_divide_distrib)
    also have "\<dots> \<le> (tend - last_send_time m) / ?I"
      using gap Cons.prems(1) by (intro divide_right_mono) simp_all
    finally have "(tend - t) / ?I + 1 \<le> (tend - last_send_time m) / ?I" .
    from floor_step[OF a0 this]
    have "1 + nat \<lfloor>(tend - t) / ?I\<rfloor> \<le> nat \<lfloor>(tend - last_send_time m) / ?I\<rfloor>" .
    then have "length (frames_written m2)
          \<le> length (frames_written m) + nat \<lfloor>(tend - last_send_time m) / ?I\<rfloor>"
      using m2(3) m1(2,3,4) by simp
    then show ?thesis using m1(1,3) m2(1,2) c by simp
  qed
qed

lemma sends_in_window:
  "0 < send_interval m \<Longrightarrow> sorted (map fst calls) \<Longrightarrow>
   \<forall>t\<in>set (map fst calls). tstart \<le> t \<and> t \<le> tend \<Longrightarrow> tstart \<le> tend \<Longrightarrow>
   \<exists>m'. send_density_calls m calls = Inr m' \<and>
        length (frames_written m')
          \<le> length (frames_written m) + nat \<lfloor>(tend - tstart) / send_interval m\<rfloor> + 1"
proof (induction calls arbitrary: m)
  case Nil
  then show ?case by simp
next
  case (Cons c calls)
  obtain t f d where c: "c = (t, f, d)" by (cases c)
  have tS: "tstart \<le> t" and tE: "t \<le> tend" using Cons.prems(3) c by simp_all
  have srt: "sorted (t # map fst calls)" using Cons.prems(2) c by simp
  then have srt': "sorted (map fst calls)" by simp
  have win: "\<forall>t\<in>set (map fst calls). tstart \<le> t \<and> t \<le> tend" using Cons.prems(3) by simp
  from send_density_cases[of m t f d] show ?case
  proof
    assume same: "send_density m t f d = Inr m"
    from Cons.IH[OF Cons.prems(1) srt' win Cons.prems(4)] show ?thesis using same c by simp
  next
    assume "send_interval m \<le> t - last_send_time m \<and>
      (\<exists>m'. send_density m t f d = Inr m' \<and> last_send_time m' = t \<and>
          send_interval m' = send_interval m \<and>
          frames_written m' = frames_written m @ [density_frame d])"
    then obtain m1 where
      m1: "send_density m t f d = Inr m1" "last_send_time m1 = t"
        "send_interval m1 = send_interval m"
        "frames_written m1 = frames_written m @ [density_frame d]" by blast
    have i1: "0 < send_interval m1" using Cons.prems(1) m1(3) by simp
    have s1: "sorted (last_send_time m1 # map fst calls)" using srt m1(2) by simp
    have u1: "\<forall>t\<in>set (map fst calls). t \<le> tend" using win by simp
    have e1: "last_send_time m1 \<le> tend" using tE m1(2) by simp
    from sends_after_last[OF i1 s1 u1 e1] obtain m2 where
      m2: "send_density_calls m1 calls = Inr m2"
        "length (frames_written m2)
          \<le> length (frames_written m1) + nat \<lfloor>(tend - last_send_time m1) / send_interval m1\<rfloor>"
      by blast
    have "(tend - t) / send_interval m \<le> (tend - tstart) / send_interval m"
      using tS Cons.prems(1) by (intro divide_right_mono) simp_all
    then have "nat \<lfloor>(tend - t) / send_interval m\<rfloor> \<le> nat \<lfloor>(tend - tstart) / send_interval m\<rfloor>"
      by (intro nat_mono floor_mono)
    then have "length (frames_written m2)
          \<le> length (frames_written m) + nat \<lfloor>(tend - tstart) / send_interval m\<rfloor> + 1"
      using m2(2) m1(2,3,4) by simp
    then show ?thesis using m1(1) m2(1) c by simp
  qed
qed

lemma sorted_le_last:
  fixes xs :: "rat list"
  shows "sorted xs \<Longrightarrow> x \<in> set xs \<Longrightarrow> x \<le> last xs"
  by (induction xs) auto

text \<open>
  Claim C4: with the interval of 10 ms, any non-empty run of \<^verbatim>\<open>send_density\<close> calls whose
  clock readings do not decrease returns normally and adds at most
  \<open>floor (T / interval) + 1\<close> frames to the wire, where \<open>T\<close> is the time from the first
  call to the last; and a call that comes sooner than the interval after the last
  successful send changes nothing.
\<close>

theorem C4_send_density_rate_limit:
  assumes "send_interval m = 1 / 100" and "sorted (map fst calls)" and "calls \<noteq> []"
  shows "(\<exists>m'. send_density_calls m calls = Inr m' \<and>
              length (frames_written m')
                \<le> length (frames_written m)
                    + nat \<lfloor>(fst (last calls) - fst (hd calls)) / (1 / 100)\<rfloor> + 1) \<and>
         (\<forall>t fails d. t - last_send_time m < send_interval m \<longrightarrow> send_density m t fails d = Inr m)"
proof
  let ?ts = "map fst calls"
  have i: "0 < send_interval m" using assms(1) by simp
  have ne: "?ts \<noteq> []" using assms(3) by simp
  have hd_le: "\<forall>t\<in>set ?ts. hd ?ts \<le> t"
    using assms(2) ne by (cases ?ts) auto
  have le_last: "\<forall>t\<in>set ?ts. t \<le> last ?ts"
    using assms(2) sorted_le_last by blast
  have win: "\<forall>t\<in>set ?ts. hd ?ts \<le> t \<and> t \<le> last ?ts" using hd_le le_last by blast
  have hl: "hd ?ts \<le> last ?ts" using le_last hd_in_set[OF ne] by blast
  have h: "hd ?ts = fst (hd calls)" using assms(3) by (simp add: hd_map)
  have l: "last ?ts = fst (last calls)" using assms(3) by (simp add: last_map)
  from sends_in_window[OF i assms(2) win hl]
  show "\<exists>m'. send_density_calls m calls = Inr m' \<and>
              length (frames_written m')
                \<le> length (frames_written m)
                    + nat \<lfloor>(fst (last calls) - fst (hd calls)) / (1 / 100)\<rfloor> + 1"
    unfolding h l assms(1) .
next
  show "\<forall>t fails d. t - last_send_time m < send_interval m \<longrightarrow> send_density m t fails d = Inr m"
    by (simp add: send_density_def)
qed


theorem C4_send_density_rate_limit_witness:
  "send_interval connected_mcu = 1 / 100 \<and> sorted (map fst burst_calls) \<and> burst_calls \<noteq> [] \<and>
   (\<exists>m'. send_density_calls connected_mcu burst_calls = Inr m' \<and>
         length (frames_written m')
           \<le> length (frames_written connected_mcu)
               + nat \<lfloor>(fst (last burst_calls) - fst (hd burst_calls)) / (1 / 100)\<rfloor> + 1) \<and>
   nat \<lfloor>(fst (last burst_calls) - fst (hd burst_calls)) / (1 / 100)\<rfloor> + 1 = 2 \<and>
   1 / 1000 - last_send_time connected_mcu < send_interval connected_mcu \<and>
   send_density connected_mcu (1 / 1000) False 5 = Inr connected_mcu"
proof -
  have a: "send_interval connected_mcu = 1 / 100"
    by (simp add: connected_mcu_def connect_def MCUCommunicator_init_def)
  have b: "sorted (map fst burst_calls)" by (simp add: burst_calls_def)
  have c: "burst_calls \<noteq> []" by (simp add: burst_calls_def)
  have d: "nat \<lfloor>(fst (last burst_calls) - fst (hd burst_calls)) / (1 / 100)\<rfloor> + 1 = 2"
    by (simp add: burst_calls_def)
  have e: "1 / 1000 - last_send_time connected_mcu < send_interval connected_mcu"
    by (simp add: connected_mcu_def connect_def MCUCommunicator_init_def)
  note t = C4_send_density_rate_limit [OF a b c]
  from t[THEN conjunct2] e have f: "send_density connected_mcu (1 / 1000) False 5 = Inr connected_mcu" by blast
  from t[THEN conjunct1] a b c d e f show ?thesis by (intro conjI)
qed

lemma burst_example:
  "send_density_calls connected_mcu burst_calls
   = Inr (connected_mcu\<lparr>serial := Some \<lparr>is_open = True, written = [density_frame 10, density_frame 30]\<rparr>,
      last_send_time := 101 / 100\<rparr>)"
  by (simp add: burst_calls_def connected_mcu_def connect_def MCUCommunicator_init_def send_density_def serial_write_def)


section \<open>Claims about the control loop\<close>

text \<open>
  Claim C9: a tick whose cursor lies outside the image returns the scanner unchanged: the
  current and the previous density keep their values, no frame is written and the time
  of the last send stays.
\<close>

theorem C9_tick_outside_image:
  assumes "mri_image_shape s = (h, w)"
    and "\<not> (0 \<le> mouse_x \<and> mouse_x < w \<and> 0 \<le> mouse_y \<and> mouse_y < h)"
  shows "process_haptic_feedback s mouse_x mouse_y current_time fails = Inr s \<and>
         (\<forall>s'. process_haptic_feedback s mouse_x mouse_y current_time fails = Inr s' \<longrightarrow>
            current_density s' = current_density s \<and> prev_density s' = prev_density s \<and>
            frames_written (mcu s') = frames_written (mcu s) \<and>
            last_send_time (mcu s') = last_send_time (mcu s))"
proof -
  have "process_haptic_feedback s mouse_x mouse_y current_time fails = Inr s"
    using assms by (simp add: process_haptic_feedback_def)
  then show ?thesis by simp
qed

theorem C9_tick_outside_image_witness:
  "mri_image_shape scanner1 = (2, 2) \<and>
   process_haptic_feedback scanner1 2 0 5 False = Inr scanner1 \<and>
   process_haptic_feedback scanner1 0 1 5 False
     = Inr (scanner1\<lparr>prev_density := 80, current_density := 255,
                     mcu := (mcu scanner1)\<lparr>serial := Some \<lparr>is_open = True, written = [density_frame 255]\<rparr>,
                                           last_send_time := 5\<rparr>\<rparr>)"
  using C9_tick_outside_image [of scanner1 2 2 2 0 5 False]
  by (simp add: scanner1_def process_haptic_feedback_def get_haptic_value_def py_get_def
      send_density_def serial_write_def)

end
